theory Spec2Isabelle
  imports Main "HOL-Library.Sublist"
begin

text \<open>
  The registry of plugins and commands of \<open>@jshow/cli\<close> (\<open>program.ts\<close>), the lifecycle
  of a command invocation (\<open>command.ts\<close>) and the loaders of the discovery phase
  (\<open>cli.ts\<close>), as functions on explicit state, with their properties. Commander, the
  file system, the dynamic import and the clock are outside the model: what they
  supply is an argument of the functions below.
\<close>

section \<open>Values, errors and strings\<close>

text \<open>
  Option values are \<open>unknown\<close> in the source; the model keeps the JavaScript values
  that the checks of the program tell apart. \<open>JObject\<close> stands for any object or
  function. Numbers are integers here (option values and time stamps in milliseconds).
\<close>

datatype jsval = Undefined | Null | JBool bool | JNum int | JStr string | JObject

text \<open>\<open>v == null\<close> holds for \<open>null\<close> and \<open>undefined\<close> only.\<close>

definition eq_null :: "jsval \<Rightarrow> bool" where
  "eq_null v = (case v of Undefined \<Rightarrow> True | Null \<Rightarrow> True | _ \<Rightarrow> False)"

text \<open>
  \<open>Record<string, unknown>\<close>: a map from the names of the own properties of the
  object to their values. The parsed options are a plain object (Commander creates it as
  \<open>{}\<close>, and the tests pass object literals), so reading \<open>options[key]\<close> for a key
  that is not an own property finds the members that every plain object inherits from
  \<open>Object.prototype\<close>, which are functions or objects; for any other key it gives
  \<open>undefined\<close>.
\<close>

type_synonym options = "string \<rightharpoonup> jsval"

definition Object_prototype :: "string list" where
  "Object_prototype =
     [''constructor'', ''hasOwnProperty'', ''isPrototypeOf'', ''propertyIsEnumerable'',
      ''toLocaleString'', ''toString'', ''valueOf'', ''__proto__'', ''__defineGetter__'',
      ''__defineSetter__'', ''__lookupGetter__'', ''__lookupSetter__'']"

definition get_prop :: "options \<Rightarrow> string \<Rightarrow> jsval" where
  "get_prop opts k =
     (case opts k of
        Some v \<Rightarrow> v
      | None \<Rightarrow> if k \<in> set Object_prototype then JObject else Undefined)"

text \<open>
  What a \<open>throw\<close> carries: \<open>new Error(message)\<close>, the \<open>TypeError\<close> that the
  language raises when a property of \<open>null\<close> or \<open>undefined\<close> is read, or any other
  value thrown by user code.
\<close>

datatype error = Error string | TypeError | Thrown jsval

text \<open>
  Strings are the UTF-8 bytes of the text. \<open>white_space\<close> lists the encodings of the
  characters that \<open>\s\<close> and \<open>trim\<close> treat as white space: U+0009 to U+000D, U+0020,
  U+00A0, U+1680, U+2000 to U+200A, U+2028, U+2029, U+202F, U+205F, U+3000, U+FEFF.
\<close>

definition white_space :: "string list" where
  "white_space =
    [[CHR 0x09], [CHR 0x0A], [CHR 0x0B], [CHR 0x0C], [CHR 0x0D], [CHR 0x20],
     [CHR 0xC2, CHR 0xA0], [CHR 0xE1, CHR 0x9A, CHR 0x80],
     [CHR 0xE2, CHR 0x80, CHR 0x80], [CHR 0xE2, CHR 0x80, CHR 0x81],
     [CHR 0xE2, CHR 0x80, CHR 0x82], [CHR 0xE2, CHR 0x80, CHR 0x83],
     [CHR 0xE2, CHR 0x80, CHR 0x84], [CHR 0xE2, CHR 0x80, CHR 0x85],
     [CHR 0xE2, CHR 0x80, CHR 0x86], [CHR 0xE2, CHR 0x80, CHR 0x87],
     [CHR 0xE2, CHR 0x80, CHR 0x88], [CHR 0xE2, CHR 0x80, CHR 0x89],
     [CHR 0xE2, CHR 0x80, CHR 0x8A], [CHR 0xE2, CHR 0x80, CHR 0xA8],
     [CHR 0xE2, CHR 0x80, CHR 0xA9], [CHR 0xE2, CHR 0x80, CHR 0xAF],
     [CHR 0xE2, CHR 0x81, CHR 0x9F], [CHR 0xE3, CHR 0x80, CHR 0x80],
     [CHR 0xEF, CHR 0xBB, CHR 0xBF]]"

definition space_at_start :: "string \<Rightarrow> string option" where
  "space_at_start s = find (\<lambda>w. prefix w s) white_space"

definition space_at_end :: "string \<Rightarrow> string option" where
  "space_at_end s = find (\<lambda>w. suffix w s) white_space"

text \<open>\<open>flag.replace(/^--?/, '')\<close>: one dash or two at the start are removed.\<close>

definition strip_dashes :: "string \<Rightarrow> string" where
  "strip_dashes s =
     (case s of
        [] \<Rightarrow> s
      | c # s' \<Rightarrow>
          if c = CHR ''-'' then (case s' of [] \<Rightarrow> s' | d # s'' \<Rightarrow> if d = CHR ''-'' then s'' else s')
          else s)"

text \<open>\<open>s.split(/\s+/)[0]\<close>: the text before the first white space character.\<close>

fun first_field :: "string \<Rightarrow> string" where
  "first_field [] = []"
| "first_field (c # s) =
     (if space_at_start (c # s) \<noteq> None then [] else c # first_field s)"

text \<open>\<open>s.trim()\<close>, as \<open>trimStart\<close> after \<open>trimEnd\<close>.\<close>

function trimStart :: "string \<Rightarrow> string" where
  "trimStart s =
     (case space_at_start s of
        Some w \<Rightarrow> trimStart (drop (length w) s)
      | None \<Rightarrow> s)"
  by pat_completeness auto
termination
proof (relation "measure length")
  show "wf (measure length)" by simp
next
  fix s w :: string
  assume *: "space_at_start s = Some w"
  then have p: "prefix w s"
    by (auto simp: space_at_start_def find_Some_iff)
  from * have "w \<in> set white_space"
    by (auto simp: space_at_start_def find_Some_iff)
  then have w: "w \<noteq> []"
    by (auto simp: white_space_def)
  with p have "s \<noteq> []" by auto
  with w show "(drop (length w) s, s) \<in> measure length" by simp
qed

function trimEnd :: "string \<Rightarrow> string" where
  "trimEnd s =
     (case space_at_end s of
        Some w \<Rightarrow> trimEnd (take (length s - length w) s)
      | None \<Rightarrow> s)"
  by pat_completeness auto
termination
proof (relation "measure length")
  show "wf (measure length)" by simp
next
  fix s w :: string
  assume *: "space_at_end s = Some w"
  then have p: "suffix w s"
    by (auto simp: space_at_end_def find_Some_iff)
  from * have "w \<in> set white_space"
    by (auto simp: space_at_end_def find_Some_iff)
  then have w: "w \<noteq> []"
    by (auto simp: white_space_def)
  with p have "s \<noteq> []" by auto
  with w show "(take (length s - length w) s, s) \<in> measure length" by simp
qed

definition trim :: "string \<Rightarrow> string" where
  "trim s = trimStart (trimEnd s)"


section \<open>Commands and plugins\<close>

text \<open>
  The execution context that every hook receives. \<open>startTime\<close> is \<open>Date.now()\<close>,
  a parameter of the model.
\<close>

record CommandContext =
  ctx_name :: string
  ctx_options :: options
  ctx_args :: "jsval list"
  ctx_startTime :: int

text \<open>
  Hooks, \<open>execute\<close>, \<open>validate\<close> and \<open>onError\<close> are user code. The model sees of a
  call whether it returns (and what) or throws: a hook is a function from the context
  to \<open>None\<close> (it returns) or \<open>Some e\<close> (it throws \<open>e\<close>). An optional method is an
  \<open>option\<close>. In this section and the next ones user code leaves the objects it is
  given as they are, so that validation and \<open>execute\<close> read the parsed options as
  Commander supplied them; the section on user code that writes the options drops this
  restriction for the options object.
\<close>

type_synonym hook = "CommandContext \<Rightarrow> error option"

record CommandOption =
  opt_flag :: string
  opt_abbreviation :: "string option"
  opt_description :: "string option"
  opt_defaultValue :: jsval
  opt_required :: bool

record CommandArgs =
  args_name :: string
  args_aliases :: "string list option"
  args_plugins :: "string list option"
  args_group :: "string option"
  args_description :: "string option"
  args_examples :: "string list option"
  args_options :: "CommandOption list"
  args_validate :: "(options \<Rightarrow> error + string option) option"

text \<open>
  A plugin class (\<open>static name\<close>, \<open>static force\<close>, the \<open>priority\<close> getter and the two
  optional hooks of its prototype) and a plugin instance. The \<open>name\<close> getter of an
  instance reads the static name of its class.
\<close>

record PluginClass =
  pc_name :: string
  pc_force :: bool
  pc_priority :: int
  pc_beforeExecute :: "hook option"
  pc_afterExecute :: "hook option"

record BasePlugin =
  bp_name :: string
  bp_priority :: int
  bp_beforeExecute :: "hook option"
  bp_afterExecute :: "hook option"

definition new_plugin :: "PluginClass \<Rightarrow> BasePlugin" where
  "new_plugin c =
     \<lparr>bp_name = pc_name c, bp_priority = pc_priority c,
      bp_beforeExecute = pc_beforeExecute c, bp_afterExecute = pc_afterExecute c\<rparr>"

text \<open>
  A command class: its static members and the members of its prototype. \<open>execute\<close>
  takes no argument in the source and reads \<open>this.command.opts()\<close>; here it is a
  function of those options.
\<close>

record CommandClass =
  cc_name :: string
  cc_force :: bool
  cc_args :: CommandArgs
  cc_beforeExecute :: "hook option"
  cc_execute :: "options \<Rightarrow> error option"
  cc_afterExecute :: "hook option"
  cc_onError :: "error \<Rightarrow> CommandContext \<Rightarrow> error + bool"

text \<open>
  \<open>BaseCommand.onError\<close>, the default: it prints \<open>error.message\<close> and returns false.
  Reading \<open>message\<close> throws a \<open>TypeError\<close> when what was thrown is \<open>null\<close> or
  \<open>undefined\<close>.
\<close>

definition onError :: "error \<Rightarrow> CommandContext \<Rightarrow> error + bool" where
  "onError e context =
     (case e of
        Thrown Undefined \<Rightarrow> Inl TypeError
      | Thrown Null \<Rightarrow> Inl TypeError
      | _ \<Rightarrow> Inr False)"

text \<open>
  A command instance: its class and the plugin instances its constructor was given.
  The Commander handle is outside the model; what it supplies (the parsed options and
  the arguments of the action) are arguments of \<open>setupAction\<close>.
\<close>

record BaseCommand =
  bc_class :: CommandClass
  bc_plugins :: "BasePlugin list"

definition args :: "BaseCommand \<Rightarrow> CommandArgs" where
  "args this = cc_args (bc_class this)"

text \<open>
  The \<open>name\<close> getter, \<open>Object.getPrototypeOf(this)?.constructor?.name ?? this.args.name\<close>:
  the static name of the class, which is a string and never \<open>null\<close>.
\<close>

definition name :: "BaseCommand \<Rightarrow> string" where
  "name this = cc_name (bc_class this)"

definition getPlugins :: "BaseCommand \<Rightarrow> BasePlugin list" where
  "getPlugins this =
     (let names = (case args_plugins (args this) of None \<Rightarrow> [] | Some ns \<Rightarrow> ns)
      in filter (\<lambda>p. bp_name p \<in> set names) (bc_plugins this))"

definition extractOptionName :: "string \<Rightarrow> string" where
  "extractOptionName f = trim (first_field (strip_dashes f))"

section \<open>Calls of user code, and the trace\<close>

text \<open>
  Every call of user code is an event. A computation takes the trace so far and gives
  a result (\<open>Inl e\<close>: \<open>e\<close> was thrown) and the extended trace.
\<close>

datatype event =
    PluginBefore string
  | CommandBefore
  | Validate
  | Execute
  | CommandAfter
  | PluginAfter string
  | OnError error

type_synonym 'a comp = "event list \<Rightarrow> (error + 'a) \<times> event list"

definition ret :: "'a \<Rightarrow> 'a comp" where
  "ret x t = (Inr x, t)"

definition throw :: "error \<Rightarrow> 'a comp" where
  "throw e t = (Inl e, t)"

definition and_then :: "'a comp \<Rightarrow> ('a \<Rightarrow> 'b comp) \<Rightarrow> 'b comp" where
  "and_then m f t = (case m t of (Inl e, t') \<Rightarrow> (Inl e, t') | (Inr x, t') \<Rightarrow> f x t')"

definition try_catch :: "'a comp \<Rightarrow> (error \<Rightarrow> 'a comp) \<Rightarrow> 'a comp" where
  "try_catch m h t = (case m t of (Inl e, t') \<Rightarrow> h e t' | (Inr x, t') \<Rightarrow> (Inr x, t'))"

definition call :: "event \<Rightarrow> error + 'a \<Rightarrow> 'a comp" where
  "call ev outcome t = (outcome, t @ [ev])"

text \<open>\<open>h?.(context)\<close>: nothing happens when the method is not there.\<close>

definition call_hook :: "event \<Rightarrow> hook option \<Rightarrow> CommandContext \<Rightarrow> unit comp" where
  "call_hook ev h context =
     (case h of
        None \<Rightarrow> ret ()
      | Some f \<Rightarrow> call ev (case f context of None \<Rightarrow> Inr () | Some e \<Rightarrow> Inl e))"

fun forEach :: "('a \<Rightarrow> unit comp) \<Rightarrow> 'a list \<Rightarrow> unit comp" where
  "forEach f [] = ret ()"
| "forEach f (x # xs) = and_then (f x) (\<lambda>_. forEach f xs)"

section \<open>Option validation\<close>

definition required_message :: "string \<Rightarrow> string" where
  "required_message f =
     [CHR 0xE9, CHR 0x80, CHR 0x89, CHR 0xE9, CHR 0xA1, CHR 0xB9, CHR 0x20] @ f @
     [CHR 0x20, CHR 0xE6, CHR 0x98, CHR 0xAF, CHR 0xE5, CHR 0xBF, CHR 0x85, CHR 0xE5,
      CHR 0xA1, CHR 0xAB, CHR 0xE7, CHR 0x9A, CHR 0x84]"

text \<open>The loop over the option definitions: the first required option without a value.\<close>

fun check_required :: "options \<Rightarrow> CommandOption list \<Rightarrow> string option" where
  "check_required opts [] = None"
| "check_required opts (option # rest) =
     (if opt_required option \<and> eq_null (get_prop opts (extractOptionName (opt_flag option)))
      then Some (required_message (opt_flag option))
      else check_required opts rest)"

definition validateOptions :: "BaseCommand \<Rightarrow> options \<Rightarrow> string option comp" where
  "validateOptions this opts =
     (let validate = args_validate (args this); optionDefs = args_options (args this)
      in case check_required opts optionDefs of
           Some message \<Rightarrow> ret (Some message)
         | None \<Rightarrow>
             (case validate of
                Some v \<Rightarrow> call Validate (v opts)
              | None \<Rightarrow> ret None))"

section \<open>The action of a command\<close>

text \<open>
  The \<open>try\<close> block of the action. \<open>if (validationError)\<close> is a truthiness test: the
  empty string does not throw.
\<close>

definition try_block :: "BaseCommand \<Rightarrow> options \<Rightarrow> CommandContext \<Rightarrow> unit comp" where
  "try_block this opts context =
     (let plugins = getPlugins this in
      and_then (forEach (\<lambda>plugin.
          call_hook (PluginBefore (bp_name plugin)) (bp_beforeExecute plugin) context) plugins) (\<lambda>_.
      and_then (call_hook CommandBefore (cc_beforeExecute (bc_class this)) context) (\<lambda>_.
      and_then (validateOptions this opts) (\<lambda>validationError.
      and_then (case validationError of
                  None \<Rightarrow> ret ()
                | Some message \<Rightarrow> if message \<noteq> [] then throw (Error message) else ret ()) (\<lambda>_.
      and_then (call Execute (case cc_execute (bc_class this) opts of
                                None \<Rightarrow> Inr () | Some e \<Rightarrow> Inl e)) (\<lambda>_.
      and_then (call_hook CommandAfter (cc_afterExecute (bc_class this)) context) (\<lambda>_.
      forEach (\<lambda>plugin.
          call_hook (PluginAfter (bp_name plugin)) (bp_afterExecute plugin) context) plugins)))))))"

text \<open>
  The \<open>catch\<close> block: the error hook decides whether the error is thrown again. The
  boolean result of the hook stands for the truthiness of what it returns.
\<close>

definition catch_block :: "BaseCommand \<Rightarrow> CommandContext \<Rightarrow> error \<Rightarrow> unit comp" where
  "catch_block this context err =
     and_then (call (OnError err) (cc_onError (bc_class this) err context)) (\<lambda>handled.
     if \<not> handled then throw err else ret ())"

text \<open>
  The callback that \<open>setupAction\<close> registers, applied to the parsed options
  (\<open>this.command.opts()\<close>), the arguments Commander passes and the time.
\<close>

definition make_context :: "BaseCommand \<Rightarrow> options \<Rightarrow> jsval list \<Rightarrow> int \<Rightarrow> CommandContext" where
  "make_context this opts arguments now =
     \<lparr>ctx_name = name this, ctx_options = opts, ctx_args = butlast arguments,
      ctx_startTime = now\<rparr>"

definition setupAction :: "BaseCommand \<Rightarrow> options \<Rightarrow> jsval list \<Rightarrow> int \<Rightarrow> unit comp" where
  "setupAction this opts arguments now =
     (let context = make_context this opts arguments now
      in try_catch (try_block this opts context) (catch_block this context))"

text \<open>The calls of hooks and of \<open>execute\<close> in a trace.\<close>

fun is_hook_call :: "event \<Rightarrow> bool" where
  "is_hook_call Validate = False"
| "is_hook_call (OnError e) = False"
| "is_hook_call ev = True"

definition hook_calls :: "event list \<Rightarrow> event list" where
  "hook_calls t = filter is_hook_call t"

section \<open>The registry\<close>

record PluginType =
  pt_name :: string
  pt_priority :: int
  pt_plugin :: PluginClass
  pt_instance :: "BasePlugin option"

record CommandType =
  ct_name :: string
  ct_command :: CommandClass
  ct_instance :: "BaseCommand option"
  ct_group :: "string option"

text \<open>
  \<open>programShape\<close>: the plugin list and the command map (the Commander program is
  outside the model).
\<close>

record programShape =
  reg_plugins :: "PluginType list"
  reg_commands :: "string \<rightharpoonup> CommandType"

definition quoted :: "string \<Rightarrow> string" where
  "quoted s = [CHR 0x27] @ s @ [CHR 0x27]"

text \<open>
  \<open>CommandProgram.install\<close>. A call without \<open>force\<close> is a call with \<open>False\<close>.
  \<open>plugins.sort((a, b) => a.priority - b.priority)\<close> is a stable sort (ECMAScript
  2019) by ascending priority: on integer priorities it is \<open>sort_key\<close>. A priority
  that is \<open>NaN\<close> is the subject of the section on priorities that are not a number.
\<close>

definition install :: "PluginClass \<Rightarrow> bool \<Rightarrow> programShape \<Rightarrow> error + programShape" where
  "install plugin force s =
     (let plugins = reg_plugins s; nm = pc_name plugin
      in if list_ex (\<lambda>p. pt_name p = nm) plugins \<and> \<not> force
         then Inl (Error (''Plugin '' @ quoted nm @ '' already exists.''))
         else
           let inst = new_plugin plugin
           in Inr (s\<lparr>reg_plugins :=
                sort_key pt_priority
                  (plugins @ [\<lparr>pt_name = nm, pt_priority = bp_priority inst,
                               pt_plugin = plugin, pt_instance = Some inst\<rparr>])\<rparr>))"

text \<open>\<open>CommandProgram.use\<close>: \<open>commands.set(name, {name, command})\<close>.\<close>

definition use :: "CommandClass \<Rightarrow> bool \<Rightarrow> programShape \<Rightarrow> error + programShape" where
  "use command force s =
     (let commands = reg_commands s; nm = cc_name command
      in if commands nm \<noteq> None \<and> \<not> force
         then Inl (Error (''Command '' @ quoted nm @ '' already exists.''))
         else Inr (s\<lparr>reg_commands :=
                commands(nm \<mapsto> \<lparr>ct_name = nm, ct_command = command,
                                 ct_instance = None, ct_group = None\<rparr>)\<rparr>))"

definition reset :: programShape where
  "reset = \<lparr>reg_plugins = [], reg_commands = Map.empty\<rparr>"

definition DEFAULT_GROUP :: string where
  "DEFAULT_GROUP = ''default''"

text \<open>\<open>new item.command(command, plugins)\<close>.\<close>

definition new_command :: "CommandClass \<Rightarrow> BasePlugin list \<Rightarrow> BaseCommand" where
  "new_command c plugins = \<lparr>bc_class = c, bc_plugins = plugins\<rparr>"

definition setupCommand :: "BasePlugin list \<Rightarrow> CommandType \<Rightarrow> CommandType" where
  "setupCommand plugins item =
     (let inst = new_command (ct_command item) plugins
      in item\<lparr>ct_group := Some (case args_group (args inst) of
                                   None \<Rightarrow> DEFAULT_GROUP | Some g \<Rightarrow> g),
               ct_instance := Some inst\<rparr>)"

text \<open>
  \<open>CommandProgram.run\<close>, up to the call of Commander's \<open>parse\<close>: every command
  without an instance gets one, built on the plugin instances installed at that moment
  (\<open>programShape.plugins.map(p => p.instance).filter(p => p != null)\<close>). What \<open>run\<close>
  does to the Commander program (the version, the sub-commands) is outside the model,
  which therefore covers one call of \<open>run\<close> on a registry.
\<close>

definition installed_instances :: "programShape \<Rightarrow> BasePlugin list" where
  "installed_instances s = List.map_filter pt_instance (reg_plugins s)"

definition run :: "programShape \<Rightarrow> programShape" where
  "run s =
     (let plugins = installed_instances s
      in s\<lparr>reg_commands := (\<lambda>n.
            map_option (\<lambda>item. if ct_instance item \<noteq> None then item
                                else setupCommand plugins item)
              (reg_commands s n))\<rparr>)"

text \<open>
  Commander's \<open>parse\<close> selects a sub-command by name and calls the action registered
  for it. \<open>None\<close>: no such command, or no instance yet. The checks that Commander makes
  on the command line before it calls the action (for an option registered with
  \<open>requiredOption\<close>, among others) are outside the model: the options are an argument.
\<close>

definition dispatch ::
  "programShape \<Rightarrow> string \<Rightarrow> options \<Rightarrow> jsval list \<Rightarrow> int \<Rightarrow> ((error + unit) \<times> event list) option" where
  "dispatch s nm opts arguments now =
     (case reg_commands s nm of
        None \<Rightarrow> None
      | Some item \<Rightarrow>
          (case ct_instance item of
             None \<Rightarrow> None
           | Some inst \<Rightarrow> Some (setupAction inst opts arguments now [])))"

text \<open>A sequence of \<open>install\<close> calls; a call that throws leaves the registry as it was.\<close>

fun installs :: "(PluginClass \<times> bool) list \<Rightarrow> programShape \<Rightarrow> programShape" where
  "installs [] s = s"
| "installs ((plugin, force) # rest) s =
     (case install plugin force s of
        Inl e \<Rightarrow> installs rest s
      | Inr s' \<Rightarrow> installs rest s')"

text \<open>
  The entry that a successful \<open>install\<close> appends, and the entries appended by a
  sequence of calls, in the order of the calls.
\<close>

definition plugin_entry :: "PluginClass \<Rightarrow> PluginType" where
  "plugin_entry plugin =
     \<lparr>pt_name = pc_name plugin, pt_priority = bp_priority (new_plugin plugin),
      pt_plugin = plugin, pt_instance = Some (new_plugin plugin)\<rparr>"

fun pushed :: "(PluginClass \<times> bool) list \<Rightarrow> programShape \<Rightarrow> PluginType list" where
  "pushed [] s = []"
| "pushed ((plugin, force) # rest) s =
     (case install plugin force s of
        Inl e \<Rightarrow> pushed rest s
      | Inr s' \<Rightarrow> plugin_entry plugin # pushed rest s')"

section \<open>Classes of the examples and of the tests\<close>

text \<open>
  A plugin class that overrides nothing but its name and its priority (the default
  priority of \<open>BasePlugin\<close> is 100), and a command class like \<open>SimpleCommand\<close> of the
  tests, with a list of plugin names.
\<close>

definition plain_plugin :: "string \<Rightarrow> int \<Rightarrow> PluginClass" where
  "plain_plugin nm priority =
     \<lparr>pc_name = nm, pc_force = False, pc_priority = priority,
      pc_beforeExecute = None, pc_afterExecute = None\<rparr>"



definition TestPlugin :: PluginClass where
  "TestPlugin = plain_plugin ''test-plugin'' 50"

definition plain_args :: "string \<Rightarrow> CommandArgs" where
  "plain_args nm =
     \<lparr>args_name = nm, args_aliases = None, args_plugins = None, args_group = None,
      args_description = None, args_examples = None, args_options = [],
      args_validate = None\<rparr>"

definition plain_command :: "string \<Rightarrow> string list \<Rightarrow> CommandClass" where
  "plain_command nm plugin_names =
     \<lparr>cc_name = nm, cc_force = False,
      cc_args = (plain_args nm)\<lparr>args_plugins := Some plugin_names\<rparr>,
      cc_beforeExecute = None, cc_execute = (\<lambda>opts. None), cc_afterExecute = None,
      cc_onError = onError\<rparr>"

text \<open>
  \<open>examples/logger.plugin.ts\<close> and \<open>examples/timer.plugin.ts\<close>: the hooks print and
  return. Descriptions and usage examples, which only the help text shows, are left out
  of the example classes.
\<close>

definition LoggerPlugin :: PluginClass where
  "LoggerPlugin =
     \<lparr>pc_name = ''logger'', pc_force = False, pc_priority = 50,
      pc_beforeExecute = Some (\<lambda>context. None), pc_afterExecute = Some (\<lambda>context. None)\<rparr>"

definition TimerPlugin :: PluginClass where
  "TimerPlugin =
     \<lparr>pc_name = ''timer'', pc_force = False, pc_priority = 100,
      pc_beforeExecute = Some (\<lambda>context. None), pc_afterExecute = Some (\<lambda>context. None)\<rparr>"

text \<open>
  \<open>examples/build.cmd.ts\<close>. Its validator rejects a truthy \<open>mode\<close> that is neither
  \<open>development\<close> nor \<open>production\<close>; its error hook returns true.
\<close>

definition truthy :: "jsval \<Rightarrow> bool" where
  "truthy v =
     (case v of
        Undefined \<Rightarrow> False | Null \<Rightarrow> False | JBool b \<Rightarrow> b
      | JNum n \<Rightarrow> n \<noteq> 0 | JStr s \<Rightarrow> s \<noteq> [] | JObject \<Rightarrow> True)"

definition build_mode_message :: string where
  "build_mode_message =
     [CHR 0xE6, CHR 0x9E, CHR 0x84, CHR 0xE5, CHR 0xBB, CHR 0xBA, CHR 0xE6, CHR 0xA8,
      CHR 0xA1, CHR 0xE5, CHR 0xBC, CHR 0x8F, CHR 0xE5, CHR 0xBF, CHR 0x85, CHR 0xE9,
      CHR 0xA1, CHR 0xBB, CHR 0xE6, CHR 0x98, CHR 0xAF, CHR 0x20] @ ''development'' @
     [CHR 0x20, CHR 0xE6, CHR 0x88, CHR 0x96, CHR 0x20] @ ''production''"

definition build_validate :: "options \<Rightarrow> error + string option" where
  "build_validate opts =
     (if truthy (get_prop opts ''mode'') \<and>
         get_prop opts ''mode'' \<notin> set [JStr ''development'', JStr ''production'']
      then Inr (Some build_mode_message)
      else Inr None)"

definition build_option :: "string \<Rightarrow> string \<Rightarrow> jsval \<Rightarrow> CommandOption" where
  "build_option f a d =
     \<lparr>opt_flag = f, opt_abbreviation = Some a, opt_description = None,
      opt_defaultValue = d, opt_required = False\<rparr>"

definition BuildCommand :: CommandClass where
  "BuildCommand =
     \<lparr>cc_name = ''build'', cc_force = False,
      cc_args =
        \<lparr>args_name = ''build'', args_aliases = Some [''b''],
         args_plugins = Some [''logger'', ''timer''], args_group = Some ''build'',
         args_description = None, args_examples = None,
         args_options =
           [build_option ''--watch'' ''-w'' (JBool False),
            build_option ''--mode <mode>'' ''-m'' (JStr ''production''),
            build_option ''--output <dir>'' ''-o'' (JStr ''./dist'')],
         args_validate = Some build_validate\<rparr>,
      cc_beforeExecute = Some (\<lambda>context. None),
      cc_execute = (\<lambda>opts. None),
      cc_afterExecute = Some (\<lambda>context. None),
      cc_onError = (\<lambda>e context. Inr True)\<rparr>"

text \<open>
  \<open>TestCommand\<close> of the tests of \<open>BaseCommand\<close>: \<open>--name <value>\<close> is required, and the
  validator rejects the name \<open>invalid\<close>. It overrides no hook.
\<close>

definition test_name_message :: string where
  "test_name_message =
     [CHR 0xE5, CHR 0x90, CHR 0x8D, CHR 0xE7, CHR 0xA7, CHR 0xB0, CHR 0xE4, CHR 0xB8,
      CHR 0x8D, CHR 0xE8, CHR 0x83, CHR 0xBD, CHR 0xE4, CHR 0xB8, CHR 0xBA, CHR 0x20] @
     ''invalid''"

definition test_validate :: "options \<Rightarrow> error + string option" where
  "test_validate opts =
     (if get_prop opts ''name'' = JStr ''invalid'' then Inr (Some test_name_message)
      else Inr None)"

definition TestCommand :: CommandClass where
  "TestCommand =
     \<lparr>cc_name = ''test'', cc_force = False,
      cc_args =
        \<lparr>args_name = ''test'', args_aliases = Some [''t''], args_plugins = None,
         args_group = Some ''test'', args_description = None, args_examples = None,
         args_options =
           [\<lparr>opt_flag = ''--name <value>'', opt_abbreviation = Some ''-n'',
             opt_description = None, opt_defaultValue = Undefined, opt_required = True\<rparr>,
            \<lparr>opt_flag = ''--verbose'', opt_abbreviation = Some ''-v'',
             opt_description = None, opt_defaultValue = Undefined, opt_required = False\<rparr>],
         args_validate = Some test_validate\<rparr>,
      cc_beforeExecute = None, cc_execute = (\<lambda>opts. None), cc_afterExecute = None,
      cc_onError = onError\<rparr>"

text \<open>
  A required option that has nothing but its flag, and a command without a validator
  whose only option is the required flag \<open>--verbose\<close>.
\<close>

definition required_option :: "string \<Rightarrow> CommandOption" where
  "required_option f =
     \<lparr>opt_flag = f, opt_abbreviation = None, opt_description = None,
      opt_defaultValue = Undefined, opt_required = True\<rparr>"

definition VerboseCommand :: CommandClass where
  "VerboseCommand =
     (plain_command ''verbose'' [])
       \<lparr>cc_args := (plain_args ''verbose'')\<lparr>args_options := [required_option ''--verbose'']\<rparr>\<rparr>"

section \<open>Statements about an invocation\<close>

text \<open>A hook that is not there, or that returns when it is called with the context.\<close>

definition hook_returns :: "hook option \<Rightarrow> CommandContext \<Rightarrow> bool" where
  "hook_returns h context = (case h of None \<Rightarrow> True | Some f \<Rightarrow> f context = None)"

text \<open>
  The before-hooks of the resolved plugins and of the command all return; likewise the
  after-hooks.
\<close>

definition befores_return :: "BaseCommand \<Rightarrow> CommandContext \<Rightarrow> bool" where
  "befores_return this context \<longleftrightarrow>
     list_all (\<lambda>p. hook_returns (bp_beforeExecute p) context) (getPlugins this) \<and>
     hook_returns (cc_beforeExecute (bc_class this)) context"

definition afters_return :: "BaseCommand \<Rightarrow> CommandContext \<Rightarrow> bool" where
  "afters_return this context \<longleftrightarrow>
     hook_returns (cc_afterExecute (bc_class this)) context \<and>
     list_all (\<lambda>p. hook_returns (bp_afterExecute p) context) (getPlugins this)"

text \<open>The events of the hooks that exist, for a list of plugins and for the command.\<close>

definition plugin_calls ::
  "(string \<Rightarrow> event) \<Rightarrow> (BasePlugin \<Rightarrow> hook option) \<Rightarrow> BasePlugin list \<Rightarrow> event list" where
  "plugin_calls ev sel ps = map (\<lambda>p. ev (bp_name p)) (filter (\<lambda>p. sel p \<noteq> None) ps)"

definition own_call :: "event \<Rightarrow> hook option \<Rightarrow> event list" where
  "own_call ev h = (case h of None \<Rightarrow> [] | Some f \<Rightarrow> [ev])"

text \<open>
  What validation throws, if anything: the error thrown by the custom validator, or
  \<open>new Error(message)\<close> for a non-empty message.
\<close>

definition validation_error :: "BaseCommand \<Rightarrow> options \<Rightarrow> error option" where
  "validation_error this opts =
     (case fst (validateOptions this opts []) of
        Inl e \<Rightarrow> Some e
      | Inr None \<Rightarrow> None
      | Inr (Some message) \<Rightarrow> if message \<noteq> [] then Some (Error message) else None)"

text \<open>
  The error \<open>e\<close> is raised during validation or during the command body: the
  before-hooks have returned, and either validation throws \<open>e\<close>, or validation passes
  and \<open>execute\<close> throws \<open>e\<close>.
\<close>

definition raised_in_validation_or_body ::
  "BaseCommand \<Rightarrow> options \<Rightarrow> CommandContext \<Rightarrow> error \<Rightarrow> bool" where
  "raised_in_validation_or_body this opts context e \<longleftrightarrow>
     befores_return this context \<and>
     (case validation_error this opts of
        Some e' \<Rightarrow> e = e'
      | None \<Rightarrow> cc_execute (bc_class this) opts = Some e)"

text \<open>
  The registry after the plugins of a list of \<open>install\<close> calls and the \<open>build\<close>
  command have been registered and \<open>run\<close> has created the instances.
\<close>

definition build_program :: "(PluginClass \<times> bool) list \<Rightarrow> programShape" where
  "build_program calls =
     (case use BuildCommand False (installs calls reset) of
        Inl e \<Rightarrow> reset
      | Inr s \<Rightarrow> run s)"

text \<open>The events of the try block up to the end of validation, when the before-hooks return.\<close>

definition before_events :: "BaseCommand \<Rightarrow> options \<Rightarrow> event list" where
  "before_events this opts =
     plugin_calls PluginBefore bp_beforeExecute (getPlugins this) @
     own_call CommandBefore (cc_beforeExecute (bc_class this)) @
     snd (validateOptions this opts [])"




text \<open>\<open>TestCommand\<close> with a \<open>beforeExecute\<close> hook that throws.\<close>

definition FailingSetupCommand :: CommandClass where
  "FailingSetupCommand =
     TestCommand\<lparr>cc_beforeExecute := Some (\<lambda>context. Some (Error ''setup failed''))\<rparr>"

text \<open>
  The instance of the \<open>build\<close> command that \<open>run\<close> creates once the logger and the
  timer are installed.
\<close>

definition build_instance :: BaseCommand where
  "build_instance = new_command BuildCommand [new_plugin LoggerPlugin, new_plugin TimerPlugin]"

section \<open>User code that writes the options\<close>

text \<open>
  The object that \<open>this.command.opts()\<close> returns is the object in \<open>context.options\<close>,
  the argument of \<open>validateOptions\<close> and what \<open>execute\<close> reads: what a hook writes to
  it, validation and \<open>execute\<close> find. In this section a call of user code that is given
  that object has, with its outcome, the own properties of the object after the call.
  The state of an invocation is the trace and the current properties of the object; an
  entry of the trace is a call together with the properties that the object had when
  the call was made. The action of the sections above is the case in which user code
  leaves the object as it is (lemma \<open>setupAction_w_lift\<close>). A hook that assigns
  another object to \<open>context.options\<close> changes what the later hooks find in the context,
  not what validation and \<open>execute\<close> read; the model does not follow such an
  assignment, nor what a hook writes to the other fields of the context.
\<close>

record invocation =
  inv_trace :: "(event \<times> options) list"
  inv_options :: options

type_synonym 'a comp_w = "invocation \<Rightarrow> (error + 'a) \<times> invocation"

definition ret_w :: "'a \<Rightarrow> 'a comp_w" where
  "ret_w x s = (Inr x, s)"

definition throw_w :: "error \<Rightarrow> 'a comp_w" where
  "throw_w e s = (Inl e, s)"

definition and_then_w :: "'a comp_w \<Rightarrow> ('a \<Rightarrow> 'b comp_w) \<Rightarrow> 'b comp_w" where
  "and_then_w m f s = (case m s of (Inl e, s') \<Rightarrow> (Inl e, s') | (Inr x, s') \<Rightarrow> f x s')"

definition try_catch_w :: "'a comp_w \<Rightarrow> (error \<Rightarrow> 'a comp_w) \<Rightarrow> 'a comp_w" where
  "try_catch_w m h s = (case m s of (Inl e, s') \<Rightarrow> h e s' | (Inr x, s') \<Rightarrow> (Inr x, s'))"

text \<open>
  A call of user code \<open>f\<close>, which maps the properties of the options object to its
  outcome and the properties after the call.
\<close>

definition call_w :: "event \<Rightarrow> (options \<Rightarrow> (error + 'a) \<times> options) \<Rightarrow> 'a comp_w" where
  "call_w ev f s =
     (case f (inv_options s) of
        (outcome, written) \<Rightarrow>
          (outcome, \<lparr>inv_trace = inv_trace s @ [(ev, inv_options s)], inv_options = written\<rparr>))"

text \<open>
  A hook receives the context, whose \<open>options\<close> are the object with its current
  properties; it returns or throws, and leaves the object with some properties.
\<close>

type_synonym hook_w = "CommandContext \<Rightarrow> error option \<times> options"

definition thrown :: "error option \<Rightarrow> error + unit" where
  "thrown r = (case r of None \<Rightarrow> Inr () | Some e \<Rightarrow> Inl e)"

definition call_hook_w :: "event \<Rightarrow> hook_w option \<Rightarrow> CommandContext \<Rightarrow> unit comp_w" where
  "call_hook_w ev h context =
     (case h of
        None \<Rightarrow> ret_w ()
      | Some f \<Rightarrow>
          call_w ev (\<lambda>current.
            case f (context\<lparr>ctx_options := current\<rparr>) of (r, written) \<Rightarrow> (thrown r, written)))"

fun forEach_w :: "('a \<Rightarrow> unit comp_w) \<Rightarrow> 'a list \<Rightarrow> unit comp_w" where
  "forEach_w f [] = ret_w ()"
| "forEach_w f (x # xs) = and_then_w (f x) (\<lambda>_. forEach_w f xs)"

text \<open>
  A plugin instance and a command instance with such members. Of \<open>args\<close> the command
  keeps what the action reads: the plugin names, the option definitions and the
  validator.
\<close>

record Plugin_w =
  pw_name :: string
  pw_beforeExecute :: "hook_w option"
  pw_afterExecute :: "hook_w option"

record Command_w =
  cw_name :: string
  cw_plugin_names :: "string list option"
  cw_options :: "CommandOption list"
  cw_validate :: "(options \<Rightarrow> (error + string option) \<times> options) option"
  cw_beforeExecute :: "hook_w option"
  cw_execute :: "options \<Rightarrow> error option \<times> options"
  cw_afterExecute :: "hook_w option"
  cw_onError :: "error \<Rightarrow> CommandContext \<Rightarrow> error + bool"
  cw_plugins :: "Plugin_w list"

definition getPlugins_w :: "Command_w \<Rightarrow> Plugin_w list" where
  "getPlugins_w this =
     (let names = (case cw_plugin_names this of None \<Rightarrow> [] | Some ns \<Rightarrow> ns)
      in filter (\<lambda>p. pw_name p \<in> set names) (cw_plugins this))"

text \<open>\<open>validateOptions(options)\<close>, reading the object as it is when validation starts.\<close>

definition validateOptions_w :: "Command_w \<Rightarrow> string option comp_w" where
  "validateOptions_w this s =
     (case check_required (inv_options s) (cw_options this) of
        Some message \<Rightarrow> ret_w (Some message) s
      | None \<Rightarrow>
          (case cw_validate this of
             Some v \<Rightarrow> call_w Validate v s
           | None \<Rightarrow> ret_w None s))"

definition try_block_w :: "Command_w \<Rightarrow> CommandContext \<Rightarrow> unit comp_w" where
  "try_block_w this context =
     (let plugins = getPlugins_w this in
      and_then_w (forEach_w (\<lambda>plugin.
          call_hook_w (PluginBefore (pw_name plugin)) (pw_beforeExecute plugin) context) plugins) (\<lambda>_.
      and_then_w (call_hook_w CommandBefore (cw_beforeExecute this) context) (\<lambda>_.
      and_then_w (validateOptions_w this) (\<lambda>validationError.
      and_then_w (case validationError of
                    None \<Rightarrow> ret_w ()
                  | Some message \<Rightarrow> if message \<noteq> [] then throw_w (Error message) else ret_w ()) (\<lambda>_.
      and_then_w (call_w Execute (\<lambda>current.
          case cw_execute this current of (r, written) \<Rightarrow> (thrown r, written))) (\<lambda>_.
      and_then_w (call_hook_w CommandAfter (cw_afterExecute this) context) (\<lambda>_.
      forEach_w (\<lambda>plugin.
          call_hook_w (PluginAfter (pw_name plugin)) (pw_afterExecute plugin) context) plugins)))))))"

definition catch_block_w :: "Command_w \<Rightarrow> CommandContext \<Rightarrow> error \<Rightarrow> unit comp_w" where
  "catch_block_w this context err =
     and_then_w (call_w (OnError err) (\<lambda>current.
         (cw_onError this err (context\<lparr>ctx_options := current\<rparr>), current))) (\<lambda>handled.
     if \<not> handled then throw_w err else ret_w ())"

definition context_w :: "Command_w \<Rightarrow> options \<Rightarrow> jsval list \<Rightarrow> int \<Rightarrow> CommandContext" where
  "context_w this opts arguments now =
     \<lparr>ctx_name = cw_name this, ctx_options = opts, ctx_args = butlast arguments,
      ctx_startTime = now\<rparr>"

text \<open>The callback of \<open>setupAction\<close>, started with an empty trace on the parsed options.\<close>

definition setupAction_w ::
  "Command_w \<Rightarrow> options \<Rightarrow> jsval list \<Rightarrow> int \<Rightarrow> (error + unit) \<times> invocation" where
  "setupAction_w this opts arguments now =
     (let context = context_w this opts arguments now
      in try_catch_w (try_block_w this context) (catch_block_w this context)
           \<lparr>inv_trace = [], inv_options = opts\<rparr>)"

text \<open>
  The first two statements of the \<open>try\<close> block, the before-hooks, run on their own from
  the start of an invocation: their result, and the invocation as they leave it.
\<close>

definition befores_w :: "Command_w \<Rightarrow> CommandContext \<Rightarrow> unit comp_w" where
  "befores_w this context =
     and_then_w (forEach_w (\<lambda>plugin.
         call_hook_w (PluginBefore (pw_name plugin)) (pw_beforeExecute plugin) context)
       (getPlugins_w this)) (\<lambda>_.
     call_hook_w CommandBefore (cw_beforeExecute this) context)"

definition before_part ::
  "Command_w \<Rightarrow> options \<Rightarrow> jsval list \<Rightarrow> int \<Rightarrow> (error + unit) \<times> invocation" where
  "before_part this opts arguments now =
     befores_w this (context_w this opts arguments now) \<lparr>inv_trace = [], inv_options = opts\<rparr>"

text \<open>
  The statements of the \<open>try\<close> block after validation: \<open>execute\<close> and the after-hooks.
\<close>

definition body_w :: "Command_w \<Rightarrow> CommandContext \<Rightarrow> unit comp_w" where
  "body_w this context =
     and_then_w (call_w Execute (\<lambda>current.
         case cw_execute this current of (r, written) \<Rightarrow> (thrown r, written))) (\<lambda>_.
     and_then_w (call_hook_w CommandAfter (cw_afterExecute this) context) (\<lambda>_.
     forEach_w (\<lambda>plugin.
         call_hook_w (PluginAfter (pw_name plugin)) (pw_afterExecute plugin) context)
       (getPlugins_w this)))"

text \<open>
  The check \<open>options[optionName] == null\<close> for a required option: the lookup of its key
  in an object with the given properties gives \<open>null\<close> or \<open>undefined\<close>.
\<close>

definition lacks_value :: "options \<Rightarrow> CommandOption \<Rightarrow> bool" where
  "lacks_value opts option \<longleftrightarrow>
     opt_required option \<and> eq_null (get_prop opts (extractOptionName (opt_flag option)))"

text \<open>The properties that the custom validator, when there is one, leaves.\<close>

definition left_by_validator :: "Command_w \<Rightarrow> options \<Rightarrow> options" where
  "left_by_validator this opts = (case cw_validate this of None \<Rightarrow> opts | Some v \<Rightarrow> snd (v opts))"

text \<open>The calls of a trace, without the properties.\<close>

definition calls_of :: "invocation \<Rightarrow> event list" where
  "calls_of s = map fst (inv_trace s)"

text \<open>
  A hook, a plugin instance and a command instance of the sections above, as user code
  that leaves the options as they are.
\<close>

definition lift_hook :: "hook \<Rightarrow> hook_w" where
  "lift_hook h context = (h context, ctx_options context)"

definition lift_plugin :: "BasePlugin \<Rightarrow> Plugin_w" where
  "lift_plugin p =
     \<lparr>pw_name = bp_name p, pw_beforeExecute = map_option lift_hook (bp_beforeExecute p),
      pw_afterExecute = map_option lift_hook (bp_afterExecute p)\<rparr>"

definition lift_command :: "BaseCommand \<Rightarrow> Command_w" where
  "lift_command this =
     \<lparr>cw_name = name this,
      cw_plugin_names = args_plugins (args this),
      cw_options = args_options (args this),
      cw_validate = map_option (\<lambda>v current. (v current, current)) (args_validate (args this)),
      cw_beforeExecute = map_option lift_hook (cc_beforeExecute (bc_class this)),
      cw_execute = (\<lambda>current. (cc_execute (bc_class this) current, current)),
      cw_afterExecute = map_option lift_hook (cc_afterExecute (bc_class this)),
      cw_onError = cc_onError (bc_class this),
      cw_plugins = map lift_plugin (bc_plugins this)\<rparr>"

text \<open>
  A computation of the sections above and one of this section correspond, for given
  options, when the second one, started on an object with these properties, gives the
  result of the first, appends the same calls and leaves the properties.
\<close>

definition with_options :: "options \<Rightarrow> event list \<Rightarrow> invocation" where
  "with_options opts t = \<lparr>inv_trace = map (\<lambda>ev. (ev, opts)) t, inv_options = opts\<rparr>"

definition corresponds :: "options \<Rightarrow> 'a comp_w \<Rightarrow> 'a comp \<Rightarrow> bool" where
  "corresponds opts m_w m \<longleftrightarrow>
     (\<forall>t. m_w (with_options opts t) = (fst (m t), with_options opts (snd (m t))))"

text \<open>
  Commands with user code that writes: \<open>TestCommand\<close> with a \<open>beforeExecute\<close> that sets
  the option \<open>name\<close>; \<open>TestCommand\<close> with a validator that deletes the option
  \<open>name\<close> and accepts; a command whose validator returns the empty string; a command
  whose only option is the required \<open>--constructor <fn>\<close>.
\<close>

definition SupplyingCommand :: Command_w where
  "SupplyingCommand =
     (lift_command (new_command TestCommand []))
       \<lparr>cw_beforeExecute :=
          Some (\<lambda>context. (None, (ctx_options context)(''name'' \<mapsto> JStr ''fallback'')))\<rparr>"

definition ForgettingCommand :: Command_w where
  "ForgettingCommand =
     (lift_command (new_command TestCommand []))
       \<lparr>cw_validate := Some (\<lambda>current. (Inr None, current(''name'' := None)))\<rparr>"

definition EmptyMessageCommand :: Command_w where
  "EmptyMessageCommand =
     (lift_command (new_command (plain_command ''quiet'' []) []))
       \<lparr>cw_validate := Some (\<lambda>current. (Inr (Some []), current))\<rparr>"

definition ConstructorCommand :: CommandClass where
  "ConstructorCommand =
     (plain_command ''make'' [])
       \<lparr>cc_args := (plain_args ''make'')\<lparr>args_options := [required_option ''--constructor <fn>'']\<rparr>\<rparr>"


section \<open>Priorities that are not a number\<close>

text \<open>
  The \<open>priority\<close> getter of a plugin class returns a JavaScript number, and \<open>NaN\<close> is
  one. The registry above takes the recorded priorities to be integers; here the plugin
  list is modelled once more, with priorities that are an integer or \<open>NaN\<close>. An entry
  keeps its name, its recorded priority and its class; the hooks of the class play no
  part in \<open>install\<close>.
\<close>

datatype number = Num int | NaN

text \<open>\<open>a - b\<close> and \<open>a <= b\<close> on numbers: \<open>NaN\<close> makes the difference \<open>NaN\<close> and the
  comparison false.\<close>

fun subtract :: "number \<Rightarrow> number \<Rightarrow> number" where
  "subtract (Num a) (Num b) = Num (a - b)"
| "subtract a b = NaN"

fun less_eq_number :: "number \<Rightarrow> number \<Rightarrow> bool" where
  "less_eq_number (Num a) (Num b) \<longleftrightarrow> a \<le> b"
| "less_eq_number a b \<longleftrightarrow> False"

text \<open>A list of numbers is ascending when every element is \<open><=\<close> every later one.\<close>

definition ascending :: "number list \<Rightarrow> bool" where
  "ascending ns = sorted_wrt less_eq_number ns"

text \<open>
  \<open>Array.prototype.sort(comparefn)\<close>. The result \<open>v\<close> of \<open>comparefn(a, b)\<close> puts \<open>a\<close>
  before \<open>b\<close> when \<open>v < 0\<close> and after \<open>b\<close> when \<open>v > 0\<close>; a result \<open>NaN\<close> counts as
  \<open>+0\<close>, and elements that compare as equal keep their order (the sort is stable since
  ECMAScript 2019). When the comparator is consistent this fixes the result, which is
  what the insertion of each element into the sorted rest gives. With \<open>NaN\<close> among the
  priorities the comparator \<open>a.priority - b.priority\<close> is not consistent, and the
  language then leaves the order to the implementation; the model keeps the insertion.
\<close>

definition not_after :: "number \<Rightarrow> bool" where
  "not_after v = (case v of NaN \<Rightarrow> True | Num d \<Rightarrow> d \<le> 0)"

fun insert_by :: "('a \<Rightarrow> 'a \<Rightarrow> number) \<Rightarrow> 'a \<Rightarrow> 'a list \<Rightarrow> 'a list" where
  "insert_by comparefn x [] = [x]"
| "insert_by comparefn x (y # ys) =
     (if not_after (comparefn x y) then x # y # ys else y # insert_by comparefn x ys)"

definition sort_by :: "('a \<Rightarrow> 'a \<Rightarrow> number) \<Rightarrow> 'a list \<Rightarrow> 'a list" where
  "sort_by comparefn xs = foldr (insert_by comparefn) xs []"

record NumberPluginClass =
  npc_name :: string
  npc_priority :: number

record NumberPluginType =
  npt_name :: string
  npt_priority :: number
  npt_plugin :: NumberPluginClass

text \<open>\<open>CommandProgram.install\<close> on such a plugin list.\<close>

definition install_number ::
  "NumberPluginClass \<Rightarrow> bool \<Rightarrow> NumberPluginType list \<Rightarrow> error + NumberPluginType list" where
  "install_number plugin force plugins =
     (let nm = npc_name plugin
      in if list_ex (\<lambda>p. npt_name p = nm) plugins \<and> \<not> force
         then Inl (Error (''Plugin '' @ quoted nm @ '' already exists.''))
         else Inr (sort_by (\<lambda>a b. subtract (npt_priority a) (npt_priority b))
                     (plugins @ [\<lparr>npt_name = nm, npt_priority = npc_priority plugin,
                                  npt_plugin = plugin\<rparr>])))"

text \<open>
  A sequence of calls, a call that throws leaving the list as it was, and the entries
  that the calls append, in the order of the calls.
\<close>

fun installs_number ::
  "(NumberPluginClass \<times> bool) list \<Rightarrow> NumberPluginType list \<Rightarrow> NumberPluginType list" where
  "installs_number [] plugins = plugins"
| "installs_number ((plugin, force) # rest) plugins =
     (case install_number plugin force plugins of
        Inl e \<Rightarrow> installs_number rest plugins
      | Inr plugins' \<Rightarrow> installs_number rest plugins')"

definition number_entry :: "NumberPluginClass \<Rightarrow> NumberPluginType" where
  "number_entry plugin =
     \<lparr>npt_name = npc_name plugin, npt_priority = npc_priority plugin, npt_plugin = plugin\<rparr>"

fun pushed_number ::
  "(NumberPluginClass \<times> bool) list \<Rightarrow> NumberPluginType list \<Rightarrow> NumberPluginType list" where
  "pushed_number [] plugins = []"
| "pushed_number ((plugin, force) # rest) plugins =
     (case install_number plugin force plugins of
        Inl e \<Rightarrow> pushed_number rest plugins
      | Inr plugins' \<Rightarrow> number_entry plugin # pushed_number rest plugins')"

text \<open>
  A plugin class of the registry above, seen as a class with a numeric priority, and
  its entry.
\<close>

definition as_number_class :: "PluginClass \<Rightarrow> NumberPluginClass" where
  "as_number_class plugin = \<lparr>npc_name = pc_name plugin, npc_priority = Num (pc_priority plugin)\<rparr>"

definition as_number_entry :: "PluginType \<Rightarrow> NumberPluginType" where
  "as_number_entry p =
     \<lparr>npt_name = pt_name p, npt_priority = Num (pt_priority p),
      npt_plugin = as_number_class (pt_plugin p)\<rparr>"

text \<open>The integer of a priority that is not \<open>NaN\<close>.\<close>

definition finite_priority :: "NumberPluginType \<Rightarrow> int" where
  "finite_priority p = (case npt_priority p of Num i \<Rightarrow> i | NaN \<Rightarrow> 0)"


section \<open>Discovery\<close>

text \<open>
  What a dynamic \<open>import\<close> of a file gives: it fails with an error, or it gives the
  value \<open>file.default || file\<close>, which is a class that extends \<open>BasePlugin\<close>, a class
  that extends \<open>BaseCommand\<close>, or something else. The import itself (with the
  resolution of the path) is a parameter of the loaders.
\<close>

datatype exported = PluginExport PluginClass | CommandExport CommandClass | OtherExport

type_synonym importer = "string \<Rightarrow> error + exported"

definition isPlugin :: "exported \<Rightarrow> bool" where
  "isPlugin v = (case v of PluginExport c \<Rightarrow> True | _ \<Rightarrow> False)"

definition isCommand :: "exported \<Rightarrow> bool" where
  "isCommand v = (case v of CommandExport c \<Rightarrow> True | _ \<Rightarrow> False)"

text \<open>
  \<open>getName\<close>: \<open>path.basename(fn, path.extname(fn)).replace(`.${key}`, '')\<close>. The
  function \<open>stem\<close> stands for \<open>fn => path.basename(fn, path.extname(fn))\<close> of Node;
  \<open>replace\<close> with a string pattern removes its first occurrence.
\<close>

fun remove_first :: "string \<Rightarrow> string \<Rightarrow> string" where
  "remove_first pat [] = []"
| "remove_first pat (c # s) =
     (if prefix pat (c # s) then drop (length pat) (c # s) else c # remove_first pat s)"

definition getName :: "(string \<Rightarrow> string) \<Rightarrow> string \<Rightarrow> string \<Rightarrow> string" where
  "getName stem fn key = remove_first (''.'' @ key) (stem fn)"

text \<open>The state of the process: the registry and what was written to the console.\<close>

datatype console_call = ConsoleWarn string error | ConsoleError string error

record process =
  registry :: programShape
  console :: "console_call list"

definition plugin_load_message :: "string \<Rightarrow> string" where
  "plugin_load_message fn =
     [CHR 0xE5, CHR 0x8A, CHR 0xA0, CHR 0xE8, CHR 0xBD, CHR 0xBD, CHR 0xE6, CHR 0x8F,
      CHR 0x92, CHR 0xE4, CHR 0xBB, CHR 0xB6, CHR 0xE6, CHR 0x96, CHR 0x87, CHR 0xE4,
      CHR 0xBB, CHR 0xB6, CHR 0x20, CHR 0x22] @ fn @
     [CHR 0x22, CHR 0x20, CHR 0xE6, CHR 0x97, CHR 0xB6, CHR 0xE5, CHR 0x87, CHR 0xBA,
      CHR 0xE9, CHR 0x94, CHR 0x99, CHR 0x3A]"

definition command_load_message :: "string \<Rightarrow> string" where
  "command_load_message fn =
     [CHR 0xE5, CHR 0x8A, CHR 0xA0, CHR 0xE8, CHR 0xBD, CHR 0xBD, CHR 0xE5, CHR 0x91,
      CHR 0xBD, CHR 0xE4, CHR 0xBB, CHR 0xA4, CHR 0xE6, CHR 0x96, CHR 0x87, CHR 0xE4,
      CHR 0xBB, CHR 0xB6, CHR 0x20, CHR 0x22] @ fn @
     [CHR 0x22, CHR 0x20, CHR 0xE6, CHR 0x97, CHR 0xB6, CHR 0xE5, CHR 0x87, CHR 0xBA,
      CHR 0xE9, CHR 0x94, CHR 0x99, CHR 0x3A]"

text \<open>
  \<open>loadPlugin\<close>: the body of its \<open>try\<close>, and the \<open>catch\<close> that warns and returns. The
  result \<open>Inr ()\<close> is a promise that resolves, \<open>Inl e\<close> one that rejects with \<open>e\<close>.
\<close>

definition loadPlugin_try ::
  "importer \<Rightarrow> (string \<Rightarrow> string) \<Rightarrow> string \<Rightarrow> programShape \<Rightarrow> error + programShape" where
  "loadPlugin_try imp stem fn s =
     (case imp fn of
        Inl e \<Rightarrow> Inl e
      | Inr v \<Rightarrow>
          if \<not> isPlugin v then Inr s
          else (case v of
                  PluginExport plugin \<Rightarrow>
                    let plugin' = (if pc_name plugin = [] then plugin\<lparr>pc_name := getName stem fn ''plugin''\<rparr>
                                   else plugin)
                    in install plugin' (pc_force plugin') s
                | _ \<Rightarrow> Inr s))"

definition loadPlugin ::
  "importer \<Rightarrow> (string \<Rightarrow> string) \<Rightarrow> string \<Rightarrow> process \<Rightarrow> (error + unit) \<times> process" where
  "loadPlugin imp stem fn w =
     (case loadPlugin_try imp stem fn (registry w) of
        Inr s \<Rightarrow> (Inr (), w\<lparr>registry := s\<rparr>)
      | Inl e \<Rightarrow> (Inr (), w\<lparr>console := console w @ [ConsoleWarn (plugin_load_message fn) e]\<rparr>))"

text \<open>\<open>loadCommand\<close>: its \<open>catch\<close> prints the error and throws it again.\<close>

definition loadCommand_try ::
  "importer \<Rightarrow> (string \<Rightarrow> string) \<Rightarrow> string \<Rightarrow> programShape \<Rightarrow> error + programShape" where
  "loadCommand_try imp stem fn s =
     (case imp fn of
        Inl e \<Rightarrow> Inl e
      | Inr v \<Rightarrow>
          if \<not> isCommand v then Inr s
          else (case v of
                  CommandExport command \<Rightarrow>
                    let command' = (if cc_name command = [] then command\<lparr>cc_name := getName stem fn ''cmd''\<rparr>
                                    else command)
                    in use command' (cc_force command') s
                | _ \<Rightarrow> Inr s))"

definition loadCommand ::
  "importer \<Rightarrow> (string \<Rightarrow> string) \<Rightarrow> string \<Rightarrow> process \<Rightarrow> (error + unit) \<times> process" where
  "loadCommand imp stem fn w =
     (case loadCommand_try imp stem fn (registry w) of
        Inr s \<Rightarrow> (Inr (), w\<lparr>registry := s\<rparr>)
      | Inl e \<Rightarrow> (Inl e, w\<lparr>console := console w @ [ConsoleError (command_load_message fn) e]\<rparr>))"

text \<open>
  The callback that \<open>runjShow\<close> gives to the traversal: a plugin file starts
  \<open>loadPlugin\<close>, a command file starts \<open>loadCommand\<close>, any other file is skipped.
\<close>

definition load_file ::
  "importer \<Rightarrow> (string \<Rightarrow> string) \<Rightarrow> string \<Rightarrow> process \<Rightarrow> (error + unit) \<times> process" where
  "load_file imp stem fn w =
     (if suffix ''.plugin.ts'' fn \<or> suffix ''.plugin.js'' fn then loadPlugin imp stem fn w
      else if suffix ''.cmd.ts'' fn \<or> suffix ''.cmd.js'' fn then loadCommand imp stem fn w
      else (Inr (), w))"

text \<open>
  \<open>runjShow\<close> up to \<open>initBuiltIn(CommandProgram).run()\<close>. The traversal starts one
  loader per file and waits for none; \<open>Promise.all\<close> then waits for all of them and
  rejects with the error of the first loader that rejects. The part of a loader after
  its import runs without interruption, so the loaders act on the registry one after
  the other, in the order in which their imports settle: \<open>fns\<close> lists the files in that
  order. \<open>Inl e\<close>: \<open>runjShow\<close> rejects with \<open>e\<close> and the program is not run; \<open>Inr w\<close>:
  every loader has resolved and the program is run on \<open>w\<close>.
\<close>

fun load_all ::
  "importer \<Rightarrow> (string \<Rightarrow> string) \<Rightarrow> string list \<Rightarrow> process \<Rightarrow> (error + unit) list \<times> process" where
  "load_all imp stem [] w = ([], w)"
| "load_all imp stem (fn # fns) w =
     (case load_file imp stem fn w of
        (r, w') \<Rightarrow> (case load_all imp stem fns w' of (rs, w'') \<Rightarrow> (r # rs, w'')))"

fun first_rejection :: "(error + unit) list \<Rightarrow> error option" where
  "first_rejection [] = None"
| "first_rejection (Inl e # rs) = Some e"
| "first_rejection (Inr u # rs) = first_rejection rs"

definition runjShow ::
  "importer \<Rightarrow> (string \<Rightarrow> string) \<Rightarrow> string list \<Rightarrow> process \<Rightarrow> error + process" where
  "runjShow imp stem fns w =
     (case load_all imp stem fns w of
        (rs, w') \<Rightarrow>
          (case first_rejection rs of
             Some e \<Rightarrow> Inl e
           | None \<Rightarrow> Inr w'))"

text \<open>
  An importer for which only \<open>good.plugin.ts\<close> can be imported (it exports
  \<open>TestPlugin\<close>), and a process that has registered and printed nothing.
\<close>

definition example_importer :: importer where
  "example_importer fn =
     (if fn = ''good.plugin.ts'' then Inr (PluginExport TestPlugin)
      else Inl (Error ''Cannot find module''))"

definition fresh_process :: process where
  "fresh_process = \<lparr>registry = reset, console = []\<rparr>"

section \<open>The plugin list stays sorted\<close>

lemma install_Inr:
  "install plugin force s = Inr s' \<Longrightarrow>
     s' = s\<lparr>reg_plugins := sort_key pt_priority (reg_plugins s @ [plugin_entry plugin])\<rparr>"
  by (auto simp: install_def plugin_entry_def Let_def split: if_splits)

lemma install_sorted:
  "install plugin force s = Inr s' \<Longrightarrow> sorted (map pt_priority (reg_plugins s'))"
  by (drule install_Inr) simp

lemma install_stable:
  "install plugin force s = Inr s' \<Longrightarrow>
     filter (\<lambda>p. pt_priority p = k) (reg_plugins s') =
     filter (\<lambda>p. pt_priority p = k) (reg_plugins s @ [plugin_entry plugin])"
  by (drule install_Inr) (simp add: sort_key_stable)

lemma installs_sorted:
  "sorted (map pt_priority (reg_plugins s)) \<Longrightarrow>
     sorted (map pt_priority (reg_plugins (installs calls s)))"
proof (induction calls arbitrary: s)
  case Nil
  then show ?case by simp
next
  case (Cons c calls)
  obtain plugin force where c: "c = (plugin, force)" by (cases c)
  show ?case
  proof (cases "install plugin force s")
    case (Inl e)
    with Cons c show ?thesis by simp
  next
    case (Inr s')
    then have "sorted (map pt_priority (reg_plugins s'))" by (rule install_sorted)
    with Cons.IH Inr c show ?thesis by simp
  qed
qed

lemma installs_stable:
  "filter (\<lambda>p. pt_priority p = k) (reg_plugins (installs calls s)) =
   filter (\<lambda>p. pt_priority p = k) (reg_plugins s @ pushed calls s)"
proof (induction calls arbitrary: s)
  case Nil
  then show ?case by simp
next
  case (Cons c calls)
  obtain plugin force where c: "c = (plugin, force)" by (cases c)
  show ?case
  proof (cases "install plugin force s")
    case (Inl e)
    with Cons c show ?thesis by simp
  next
    case (Inr s')
    from install_stable[OF Inr, of k] Cons.IH[of s'] Inr c show ?thesis by simp
  qed
qed

text \<open>
  After every sequence of \<open>install\<close> calls on the empty registry, whatever the classes
  and the \<open>force\<close> flags and whether or not a call throws, the plugin list is sorted
  by ascending recorded priority, and for every priority \<open>k\<close> the entries of priority
  \<open>k\<close> stand in the order in which they were appended.
\<close>

lemma installs_sorted_and_stable:
  "sorted (map pt_priority (reg_plugins (installs calls reset))) \<and>
   (\<forall>k. filter (\<lambda>p. pt_priority p = k) (reg_plugins (installs calls reset)) =
        filter (\<lambda>p. pt_priority p = k) (pushed calls reset))"
  using installs_sorted[of reset calls] installs_stable[of _ calls reset]
  by (simp add: reset_def)

text \<open>
  Four calls: \<open>a\<close> with priority 100, \<open>b\<close> with 50, \<open>c\<close> with 100, and \<open>a\<close> again
  without \<open>force\<close>, which is refused. The list is \<open>b, a, c\<close>.
\<close>

lemma install_order_example:
  "map pt_name (reg_plugins (installs
      [(plain_plugin ''a'' 100, False), (plain_plugin ''b'' 50, False),
       (plain_plugin ''c'' 100, False), (plain_plugin ''a'' 70, False)] reset)) =
     [''b'', ''a'', ''c'']"
  by (simp add: install_def reset_def plain_plugin_def new_plugin_def Let_def)

section \<open>The plugin list when a priority may be NaN\<close>

lemma insert_by_insort:
  assumes "npt_priority x \<noteq> NaN" "\<forall>y\<in>set ys. npt_priority y \<noteq> NaN"
  shows "insert_by (\<lambda>a b. subtract (npt_priority a) (npt_priority b)) x ys =
         insort_key finite_priority x ys"
  using assms
proof (induction ys)
  case Nil
  then show ?case by simp
next
  case (Cons y ys)
  then obtain i j where "npt_priority x = Num i" "npt_priority y = Num j"
    by (cases "npt_priority x"; cases "npt_priority y") auto
  with Cons show ?case
    by (simp add: not_after_def finite_priority_def)
qed

lemma set_insert_by: "set (insert_by c x ys) = insert x (set ys)"
  by (induction ys) auto

lemma set_sort_by: "set (sort_by c xs) = set xs"
  by (induction xs) (simp_all add: sort_by_def set_insert_by)

lemma sort_by_sort_key:
  assumes "\<forall>y\<in>set xs. npt_priority y \<noteq> NaN"
  shows "sort_by (\<lambda>a b. subtract (npt_priority a) (npt_priority b)) xs =
         sort_key finite_priority xs"
  using assms
proof (induction xs)
  case Nil
  then show ?case by (simp add: sort_by_def)
next
  case (Cons x xs)
  then have "sort_by (\<lambda>a b. subtract (npt_priority a) (npt_priority b)) xs =
         sort_key finite_priority xs" by simp
  moreover have "\<forall>y\<in>set (sort_key finite_priority xs). npt_priority y \<noteq> NaN"
    using Cons.prems by simp
  ultimately show ?case
    using Cons.prems insert_by_insort[of x "sort_key finite_priority xs"]
    by (simp add: sort_by_def)
qed

lemma install_number_Inr:
  "install_number plugin force plugins = Inr plugins' \<Longrightarrow>
     plugins' = sort_by (\<lambda>a b. subtract (npt_priority a) (npt_priority b))
                  (plugins @ [number_entry plugin])"
  by (auto simp: install_number_def number_entry_def Let_def split: if_splits)

lemma ascending_finite:
  assumes "\<forall>y\<in>set xs. npt_priority y \<noteq> NaN"
  shows "ascending (map npt_priority xs) \<longleftrightarrow> sorted (map finite_priority xs)"
  using assms
proof (induction xs)
  case Nil
  then show ?case by (simp add: ascending_def)
next
  case (Cons x xs)
  obtain i where i: "npt_priority x = Num i" using Cons.prems by (cases "npt_priority x") auto
  have "less_eq_number (Num i) (npt_priority y) \<longleftrightarrow> i \<le> finite_priority y" if "y \<in> set xs" for y
    using that Cons.prems by (cases "npt_priority y") (auto simp: finite_priority_def)
  with Cons i show ?case
    by (auto simp: ascending_def finite_priority_def)
qed

lemma filter_finite:
  assumes "\<forall>y\<in>set xs. npt_priority y \<noteq> NaN"
  shows "filter (\<lambda>p. npt_priority p = NaN) xs = []"
    and "filter (\<lambda>p. npt_priority p = Num i) xs = filter (\<lambda>p. finite_priority p = i) xs"
proof -
  show "filter (\<lambda>p. npt_priority p = NaN) xs = []"
    using assms by (simp add: filter_empty_conv)
  have "(npt_priority p = Num i) = (finite_priority p = i)" if "p \<in> set xs" for p
    using that assms by (cases "npt_priority p") (auto simp: finite_priority_def)
  then show "filter (\<lambda>p. npt_priority p = Num i) xs = filter (\<lambda>p. finite_priority p = i) xs"
    by (rule filter_cong[OF refl])
qed

lemma install_number_finite:
  assumes "install_number plugin force plugins = Inr plugins'"
    "npc_priority plugin \<noteq> NaN" "\<forall>y\<in>set plugins. npt_priority y \<noteq> NaN"
  shows "plugins' = sort_key finite_priority (plugins @ [number_entry plugin])"
proof -
  have "\<forall>y\<in>set (plugins @ [number_entry plugin]). npt_priority y \<noteq> NaN"
    using assms(2,3) by (simp add: number_entry_def)
  from install_number_Inr[OF assms(1)] sort_by_sort_key[OF this] show ?thesis by simp
qed

lemma installs_number_no_NaN:
  assumes "\<forall>c\<in>set calls. npc_priority (fst c) \<noteq> NaN" "\<forall>y\<in>set plugins. npt_priority y \<noteq> NaN"
  shows "\<forall>y\<in>set (installs_number calls plugins @ pushed_number calls plugins).
           npt_priority y \<noteq> NaN"
  using assms
proof (induction calls arbitrary: plugins)
  case Nil
  then show ?case by simp
next
  case (Cons c calls)
  obtain plugin force where c: "c = (plugin, force)" by (cases c)
  from Cons.prems(1) have rest: "\<forall>c\<in>set calls. npc_priority (fst c) \<noteq> NaN" by simp
  show ?case
  proof (cases "install_number plugin force plugins")
    case (Inl e)
    with Cons.IH[OF rest Cons.prems(2)] c show ?thesis by simp
  next
    case (Inr plugins')
    have e: "npt_priority (number_entry plugin) \<noteq> NaN"
      using Cons.prems(1) c by (simp add: number_entry_def)
    from Cons.prems(1) c have "npc_priority plugin \<noteq> NaN" by simp
    from install_number_finite[OF Inr this Cons.prems(2)] e Cons.prems(2)
    have "\<forall>y\<in>set plugins'. npt_priority y \<noteq> NaN" by simp
    from Cons.IH[OF rest this] Inr c e show ?thesis by simp
  qed
qed

lemma installs_number_sorted:
  assumes "\<forall>c\<in>set calls. npc_priority (fst c) \<noteq> NaN" "\<forall>y\<in>set plugins. npt_priority y \<noteq> NaN"
    "sorted (map finite_priority plugins)"
  shows "sorted (map finite_priority (installs_number calls plugins))"
  using assms
proof (induction calls arbitrary: plugins)
  case Nil
  then show ?case by simp
next
  case (Cons c calls)
  obtain plugin force where c: "c = (plugin, force)" by (cases c)
  from Cons.prems(1) have rest: "\<forall>c\<in>set calls. npc_priority (fst c) \<noteq> NaN" by simp
  show ?case
  proof (cases "install_number plugin force plugins")
    case (Inl e)
    with Cons.IH[OF rest Cons.prems(2,3)] c show ?thesis by simp
  next
    case (Inr plugins')
    from Cons.prems(1) c have p: "npc_priority plugin \<noteq> NaN" by simp
    then have e: "npt_priority (number_entry plugin) \<noteq> NaN" by (simp add: number_entry_def)
    note p' = install_number_finite[OF Inr p Cons.prems(2)]
    from p' e Cons.prems(2) have 1: "\<forall>y\<in>set plugins'. npt_priority y \<noteq> NaN" by simp
    from p' have 2: "sorted (map finite_priority plugins')" by simp
    from Cons.IH[OF rest 1 2] Inr c show ?thesis by simp
  qed
qed

lemma installs_number_stable:
  assumes "\<forall>c\<in>set calls. npc_priority (fst c) \<noteq> NaN" "\<forall>y\<in>set plugins. npt_priority y \<noteq> NaN"
  shows "filter (\<lambda>p. finite_priority p = i) (installs_number calls plugins) =
         filter (\<lambda>p. finite_priority p = i) (plugins @ pushed_number calls plugins)"
  using assms
proof (induction calls arbitrary: plugins)
  case Nil
  then show ?case by simp
next
  case (Cons c calls)
  obtain plugin force where c: "c = (plugin, force)" by (cases c)
  from Cons.prems(1) have rest: "\<forall>c\<in>set calls. npc_priority (fst c) \<noteq> NaN" by simp
  show ?case
  proof (cases "install_number plugin force plugins")
    case (Inl e)
    with Cons.IH[OF rest Cons.prems(2)] c show ?thesis by simp
  next
    case (Inr plugins')
    from Cons.prems(1) c have p: "npc_priority plugin \<noteq> NaN" by simp
    then have e: "npt_priority (number_entry plugin) \<noteq> NaN" by (simp add: number_entry_def)
    note p' = install_number_finite[OF Inr p Cons.prems(2)]
    from p' e Cons.prems(2) have 1: "\<forall>y\<in>set plugins'. npt_priority y \<noteq> NaN" by simp
    from p' have 3: "filter (\<lambda>p. finite_priority p = i) plugins' =
        filter (\<lambda>p. finite_priority p = i) (plugins @ [number_entry plugin])"
      by (simp add: sort_key_stable)
    have "filter (\<lambda>p. finite_priority p = i) (installs_number (c # calls) plugins) =
        filter (\<lambda>p. finite_priority p = i) (installs_number calls plugins')"
      using Inr c by simp
    also have "\<dots> = filter (\<lambda>p. finite_priority p = i) (plugins' @ pushed_number calls plugins')"
      by (rule Cons.IH[OF rest 1])
    also have "\<dots> = filter (\<lambda>p. finite_priority p = i) (plugins @ [number_entry plugin]) @
        filter (\<lambda>p. finite_priority p = i) (pushed_number calls plugins')"
      using 3 by simp
    also have "\<dots> = filter (\<lambda>p. finite_priority p = i) (plugins @ pushed_number (c # calls) plugins)"
      using Inr c by simp
    finally show ?thesis .
  qed
qed

text \<open>
  On plugin classes with integer priorities, \<open>install_number\<close> is \<open>install\<close> of the
  registry above.
\<close>

lemma sort_key_as_number:
  "sort_key finite_priority (map as_number_entry ps) = map as_number_entry (sort_key pt_priority ps)"
proof -
  have key: "finite_priority (as_number_entry p) = pt_priority p" for p
    by (simp add: finite_priority_def as_number_entry_def)
  have ins: "insort_key finite_priority (as_number_entry x) (map as_number_entry ys) =
      map as_number_entry (insort_key pt_priority x ys)" for x ys
    by (induction ys) (simp_all add: key)
  show ?thesis
    by (induction ps) (simp_all add: ins)
qed

lemma install_number_refines:
  "install_number (as_number_class plugin) force (map as_number_entry (reg_plugins s)) =
     (case install plugin force s of
        Inl e \<Rightarrow> Inl e
      | Inr s' \<Rightarrow> Inr (map as_number_entry (reg_plugins s')))"
proof -
  let ?entry = "\<lparr>pt_name = pc_name plugin, pt_priority = bp_priority (new_plugin plugin),
                 pt_plugin = plugin, pt_instance = Some (new_plugin plugin)\<rparr>"
  have "\<forall>y\<in>set (map as_number_entry (reg_plugins s @ [?entry])). npt_priority y \<noteq> NaN"
    by (auto simp: as_number_entry_def)
  from sort_by_sort_key[OF this]
  have "sort_by (\<lambda>a b. subtract (npt_priority a) (npt_priority b))
          (map as_number_entry (reg_plugins s @ [?entry])) =
        map as_number_entry (sort_key pt_priority (reg_plugins s @ [?entry]))"
    by (simp only: sort_key_as_number)
  moreover have "as_number_entry ?entry =
      \<lparr>npt_name = pc_name plugin, npt_priority = Num (pc_priority plugin),
       npt_plugin = as_number_class plugin\<rparr>"
    by (simp add: as_number_entry_def new_plugin_def)
  moreover have "list_ex (\<lambda>p. npt_name p = pc_name plugin) (map as_number_entry (reg_plugins s)) =
      list_ex (\<lambda>p. pt_name p = pc_name plugin) (reg_plugins s)"
    by (simp add: list_ex_iff as_number_entry_def)
  ultimately show ?thesis
    by (simp add: install_number_def install_def Let_def as_number_class_def)
qed

text \<open>
  A list that holds \<open>NaN\<close> and another number is not ascending, in whatever order an
  implementation leaves it.
\<close>

lemma nan_never_ascending:
  assumes "NaN \<in> set ns" "length ns \<ge> 2"
  shows "\<not> ascending ns"
proof
  assume a: "ascending ns"
  from assms(1) obtain xs ys where ns: "ns = xs @ NaN # ys" by (auto simp: in_set_conv_decomp)
  with assms(2) have "xs \<noteq> [] \<or> ys \<noteq> []" by auto
  then show False
  proof
    assume "xs \<noteq> []"
    then obtain x where "x \<in> set xs" by (cases xs) auto
    with a ns have "less_eq_number x NaN" by (auto simp: ascending_def sorted_wrt_append)
    then show False by (cases x) auto
  next
    assume "ys \<noteq> []"
    then obtain y where "y \<in> set ys" by (cases ys) auto
    with a ns have "less_eq_number NaN y" by (auto simp: ascending_def sorted_wrt_append)
    then show False by simp
  qed
qed

text \<open>
  C8, as amended. After every sequence of \<open>install\<close> calls on the empty plugin list in
  which no class has the priority \<open>NaN\<close>, whatever the \<open>force\<close> flags and whether or
  not a call throws, the recorded priorities are ascending, and for every priority \<open>k\<close>
  the entries of priority \<open>k\<close> stand in the order in which they were appended: the
  sort is stable.
\<close>

theorem install_sequence_sorted_stable:
  assumes "\<forall>call\<in>set calls. npc_priority (fst call) \<noteq> NaN"
  shows "ascending (map npt_priority (installs_number calls [])) \<and>
     (\<forall>k. filter (\<lambda>p. npt_priority p = k) (installs_number calls []) =
          filter (\<lambda>p. npt_priority p = k) (pushed_number calls []))"
proof (intro conjI allI)
  from installs_number_no_NaN[OF assms, of "[]"] have
    f: "\<forall>y\<in>set (installs_number calls []). npt_priority y \<noteq> NaN"
       "\<forall>y\<in>set (pushed_number calls []). npt_priority y \<noteq> NaN"
    by simp_all
  from installs_number_sorted[OF assms, of "[]"]
  show "ascending (map npt_priority (installs_number calls []))"
    by (simp add: ascending_finite[OF f(1)])
  fix k
  show "filter (\<lambda>p. npt_priority p = k) (installs_number calls []) =
        filter (\<lambda>p. npt_priority p = k) (pushed_number calls [])"
  proof (cases k)
    case NaN
    then show ?thesis by (simp add: filter_finite(1)[OF f(1)] filter_finite(1)[OF f(2)])
  next
    case (Num i)
    from installs_number_stable[OF assms, of "[]" i]
    show ?thesis
      unfolding Num filter_finite(2)[OF f(1)] filter_finite(2)[OF f(2)] by simp
  qed
qed

theorem install_sequence_sorted_stable_witness:
  "map npt_name (installs_number
      [(\<lparr>npc_name = ''a'', npc_priority = Num 100\<rparr>, False),
       (\<lparr>npc_name = ''b'', npc_priority = Num 50\<rparr>, False),
       (\<lparr>npc_name = ''c'', npc_priority = Num 100\<rparr>, False),
       (\<lparr>npc_name = ''a'', npc_priority = Num 70\<rparr>, False)] []) = [''b'', ''a'', ''c''] \<and>
   ascending (map npt_priority (installs_number
      [(\<lparr>npc_name = ''a'', npc_priority = Num 100\<rparr>, False),
       (\<lparr>npc_name = ''b'', npc_priority = Num 50\<rparr>, False),
       (\<lparr>npc_name = ''c'', npc_priority = Num 100\<rparr>, False),
       (\<lparr>npc_name = ''a'', npc_priority = Num 70\<rparr>, False)] []))"
proof -
  let ?calls = "[(\<lparr>npc_name = ''a'', npc_priority = Num 100\<rparr>, False),
       (\<lparr>npc_name = ''b'', npc_priority = Num 50\<rparr>, False),
       (\<lparr>npc_name = ''c'', npc_priority = Num 100\<rparr>, False),
       (\<lparr>npc_name = ''a'', npc_priority = Num 70\<rparr>, False)]"
  have "\<forall>call\<in>set ?calls. npc_priority (fst call) \<noteq> NaN" by simp
  from install_sequence_sorted_stable[OF this]
  have "ascending (map npt_priority (installs_number ?calls []))" by blast
  moreover have "map npt_name (installs_number ?calls []) = [''b'', ''a'', ''c'']"
    by (simp add: install_number_def sort_by_def not_after_def Let_def)
  ultimately show ?thesis by simp
qed

text \<open>
  C8 as stated fails: after the calls for the priorities 100, \<open>NaN\<close> and 50, every
  comparison with the second entry gives \<open>NaN\<close>, the three entries stay in the order of
  the calls, and the list is not ascending (lemma \<open>nan_never_ascending\<close>: it would not
  be in any other order either).
\<close>

theorem nan_priority_breaks_order:
  "installs_number
      [(\<lparr>npc_name = ''a'', npc_priority = Num 100\<rparr>, False),
       (\<lparr>npc_name = ''b'', npc_priority = NaN\<rparr>, False),
       (\<lparr>npc_name = ''c'', npc_priority = Num 50\<rparr>, False)] [] =
     [number_entry \<lparr>npc_name = ''a'', npc_priority = Num 100\<rparr>,
      number_entry \<lparr>npc_name = ''b'', npc_priority = NaN\<rparr>,
      number_entry \<lparr>npc_name = ''c'', npc_priority = Num 50\<rparr>] \<and>
   \<not> ascending (map npt_priority (installs_number
      [(\<lparr>npc_name = ''a'', npc_priority = Num 100\<rparr>, False),
       (\<lparr>npc_name = ''b'', npc_priority = NaN\<rparr>, False),
       (\<lparr>npc_name = ''c'', npc_priority = Num 50\<rparr>, False)] []))"
  by (simp add: install_number_def sort_by_def not_after_def Let_def number_entry_def ascending_def)

section \<open>Registering a name twice\<close>

text \<open>
  Without \<open>force\<close>, a name that is already there is refused with the message of the
  source, and no new registry is produced. With \<open>force\<close>, \<open>use\<close> replaces the entry
  of the command map.
\<close>

lemma install_duplicate_throws:
  "list_ex (\<lambda>p. pt_name p = pc_name plugin) (reg_plugins s) \<Longrightarrow>
     install plugin False s = Inl (Error (''Plugin '' @ quoted (pc_name plugin) @ '' already exists.''))"
  by (simp add: install_def)

lemma use_duplicate_throws:
  "reg_commands s (cc_name command) \<noteq> None \<Longrightarrow>
     use command False s = Inl (Error (''Command '' @ quoted (cc_name command) @ '' already exists.''))"
  by (simp add: use_def)

lemma use_force_replaces:
  "\<exists>s'. use command True s = Inr s' \<and>
     reg_commands s' (cc_name command) =
       Some \<lparr>ct_name = cc_name command, ct_command = command, ct_instance = None, ct_group = None\<rparr> \<and>
     (\<forall>n. n \<noteq> cc_name command \<longrightarrow> reg_commands s' n = reg_commands s n)"
  by (simp add: use_def Let_def)

text \<open>
  C2. \<open>install\<close> with \<open>force = true\<close> does not replace the entry of the same name:
  it appends a second one. Installing a plugin class on the empty registry and then
  again with \<open>force\<close> leaves two entries under its name.
\<close>

theorem install_force_keeps_prior_entry:
  "\<exists>s1 s2. install plugin False reset = Inr s1 \<and> install plugin True s1 = Inr s2 \<and>
     reg_plugins s2 = [plugin_entry plugin, plugin_entry plugin]"
  by (simp add: install_def reset_def plugin_entry_def Let_def)

lemma install_force_appends:
  "\<exists>s'. install plugin True s = Inr s' \<and>
     length (filter (\<lambda>p. pt_name p = pc_name plugin) (reg_plugins s')) =
     Suc (length (filter (\<lambda>p. pt_name p = pc_name plugin) (reg_plugins s)))"
  by (simp add: install_def Let_def filter_sort)


section \<open>The plugins of a command\<close>





lemma install_commands: "install plugin force s = Inr s' \<Longrightarrow> reg_commands s' = reg_commands s"
  by (auto simp: install_def Let_def split: if_splits)

lemma installs_commands: "reg_commands (installs calls s) = reg_commands s"
proof (induction calls arbitrary: s)
  case Nil
  then show ?case by simp
next
  case (Cons c calls)
  obtain plugin force where c: "c = (plugin, force)" by (cases c)
  show ?case
  proof (cases "install plugin force s")
    case (Inl e)
    with Cons c show ?thesis by simp
  next
    case (Inr s')
    from Cons.IH[of s'] install_commands[OF Inr] Inr c show ?thesis by simp
  qed
qed









section \<open>The lookup key of a flag\<close>

text \<open>
  For a name \<open>k\<close> none of whose bytes occurs in a white space character, the lookup key
  of \<open>--k\<close> and of \<open>--k placeholder\<close> is \<open>k\<close>; so is that of \<open>-k\<close> and of
  \<open>-k placeholder\<close> when \<open>k\<close> does not begin with a dash.
\<close>

lemma white_space_nonempty: "w \<in> set white_space \<Longrightarrow> w \<noteq> []"
  by (auto simp: white_space_def)

lemma space_at_start_Some:
  "space_at_start s = Some w \<Longrightarrow> w \<in> set white_space \<and> prefix w s"
  by (auto simp: space_at_start_def find_Some_iff)

lemma space_at_end_Some:
  "space_at_end s = Some w \<Longrightarrow> w \<in> set white_space \<and> suffix w s"
  by (auto simp: space_at_end_def find_Some_iff)

lemma space_at_start_plain:
  assumes "s = [] \<or> hd s \<notin> set (concat white_space)"
  shows "space_at_start s = None"
proof (cases "space_at_start s")
  case None
  then show ?thesis .
next
  case (Some w)
  then have w: "w \<in> set white_space" "prefix w s" "w \<noteq> []"
    using space_at_start_Some white_space_nonempty by blast+
  then have "s \<noteq> []" "hd s = hd w" by (auto simp: prefix_def)
  moreover have "hd w \<in> set w" using w by simp
  then have "hd w \<in> set (concat white_space)" unfolding set_concat using w(1) by blast
  ultimately show ?thesis using assms by simp
qed

lemma space_at_end_plain:
  assumes "s = [] \<or> last s \<notin> set (concat white_space)"
  shows "space_at_end s = None"
proof (cases "space_at_end s")
  case None
  then show ?thesis .
next
  case (Some w)
  then have w: "w \<in> set white_space" "suffix w s" "w \<noteq> []"
    using space_at_end_Some white_space_nonempty by blast+
  then have "s \<noteq> []" "last s = last w" by (auto simp: suffix_def)
  moreover have "last w \<in> set w" using w by simp
  then have "last w \<in> set (concat white_space)" unfolding set_concat using w(1) by blast
  ultimately show ?thesis using assms by simp
qed

lemma first_field_plain:
  "\<forall>c\<in>set k. c \<notin> set (concat white_space) \<Longrightarrow>
     first_field (k @ CHR '' '' # rest) = k \<and> first_field k = k"
proof (induction k)
  case Nil
  have "space_at_start (CHR '' '' # rest) \<noteq> None"
    by (simp add: space_at_start_def white_space_def)
  then show ?case by simp
next
  case (Cons c k)
  then have "space_at_start ((c # k) @ CHR '' '' # rest) = None" "space_at_start (c # k) = None"
    by (auto intro!: space_at_start_plain)
  with Cons show ?case by simp
qed

lemma trim_plain:
  assumes "\<forall>c\<in>set k. c \<notin> set (concat white_space)"
  shows "trim k = k"
proof -
  have "space_at_end k = None" using assms by (cases k rule: rev_cases) (auto intro!: space_at_end_plain)
  moreover have "space_at_start k = None" using assms by (cases k) (auto intro!: space_at_start_plain)
  ultimately show ?thesis by (simp add: trim_def)
qed


lemma extractOptionName_flag:
  assumes "\<forall>c\<in>set k. c \<notin> set (concat white_space)"
  shows "extractOptionName (''--'' @ k @ '' '' @ placeholder) = k"
    and "extractOptionName (''--'' @ k) = k"
  using assms first_field_plain[OF assms] trim_plain[OF assms]
  by (simp_all add: extractOptionName_def strip_dashes_def)

lemma extractOptionName_short:
  assumes "\<forall>c\<in>set k. c \<notin> set (concat white_space)" "k = [] \<or> hd k \<noteq> CHR ''-''"
  shows "extractOptionName (''-'' @ k @ '' '' @ placeholder) = k"
    and "extractOptionName (''-'' @ k) = k"
proof -
  have "strip_dashes (''-'' @ k @ rest) = k @ rest" if "rest = [] \<or> hd rest \<noteq> CHR ''-''" for rest
    using assms(2) that by (cases k; cases rest) (auto simp: strip_dashes_def)
  from this[of "'' '' @ placeholder"] this[of "[]"]
  show "extractOptionName (''-'' @ k @ '' '' @ placeholder) = k"
    and "extractOptionName (''-'' @ k) = k"
    using first_field_plain[OF assms(1)] trim_plain[OF assms(1)]
    by (simp_all add: extractOptionName_def)
qed

lemma extractOptionName_name: "extractOptionName ''--name <value>'' = ''name''"
  by (simp add: extractOptionName_def strip_dashes_def trim_def space_at_start_def
      space_at_end_def white_space_def suffix_to_prefix)

lemma extractOptionName_verbose: "extractOptionName ''--verbose'' = ''verbose''"
  by (simp add: extractOptionName_def strip_dashes_def trim_def space_at_start_def
      space_at_end_def white_space_def suffix_to_prefix)

section \<open>What option validation returns\<close>

lemma check_required_find:
  "check_required opts defs =
     map_option (\<lambda>option. required_message (opt_flag option))
       (find (\<lambda>option. opt_required option \<and>
                eq_null (get_prop opts (extractOptionName (opt_flag option)))) defs)"
  by (induction defs) auto

lemma check_required_None:
  "check_required opts defs = None \<longleftrightarrow>
     (\<forall>option\<in>set defs. \<not> (opt_required option \<and>
         eq_null (get_prop opts (extractOptionName (opt_flag option)))))"
  by (induction defs) auto

lemma eq_null_iff: "eq_null v \<longleftrightarrow> v = Undefined \<or> v = Null"
  by (cases v) (auto simp: eq_null_def)


lemma required_message_nonempty: "required_message f \<noteq> []"
  by (simp add: required_message_def)

lemma validateOptions_missing:
  assumes "find (\<lambda>option. opt_required option \<and>
                eq_null (get_prop opts (extractOptionName (opt_flag option))))
          (args_options (args this)) = Some option"
  shows "validateOptions this opts t = (Inr (Some (required_message (opt_flag option))), t)"
  using assms by (simp add: validateOptions_def check_required_find ret_def)


lemma validateOptions_present:
  assumes "check_required opts (args_options (args this)) = None"
  shows "validateOptions this opts t =
        (case args_validate (args this) of
           None \<Rightarrow> (Inr None, t)
         | Some v \<Rightarrow> (v opts, t @ [Validate]))"
  using assms by (simp add: validateOptions_def ret_def call_def split: option.splits)

text \<open>
  C10. \<open>validateOptions\<close> returns the message that names the first required option
  whose looked-up value is \<open>undefined\<close> or \<open>null\<close>, without calling the validator;
  when no required option has such a value it goes on to the validator, whose result it
  returns, or returns \<open>null\<close> without one. In particular required options whose
  values are \<open>false\<close>, \<open>0\<close> or the empty string pass: a command without a validator
  whose required flag is parsed as \<open>false\<close> gets \<open>null\<close>.
\<close>

theorem required_check_is_eq_null:
  "(\<forall>option. find (\<lambda>option. opt_required option \<and>
                (get_prop opts (extractOptionName (opt_flag option)) = Undefined \<or>
                 get_prop opts (extractOptionName (opt_flag option)) = Null))
          (args_options (args this)) = Some option \<longrightarrow>
      validateOptions this opts t = (Inr (Some (required_message (opt_flag option))), t)) \<and>
   ((\<forall>option\<in>set (args_options (args this)). opt_required option \<longrightarrow>
        get_prop opts (extractOptionName (opt_flag option)) \<noteq> Undefined \<and>
        get_prop opts (extractOptionName (opt_flag option)) \<noteq> Null) \<longrightarrow>
      validateOptions this opts t =
        (case args_validate (args this) of
           None \<Rightarrow> (Inr None, t)
         | Some v \<Rightarrow> (v opts, t @ [Validate]))) \<and>
   ((\<forall>option\<in>set (args_options (args this)). opt_required option \<longrightarrow>
        get_prop opts (extractOptionName (opt_flag option)) \<in> {JBool False, JNum 0, JStr []}) \<and>
    args_validate (args this) = None \<longrightarrow>
      validateOptions this opts t = (Inr None, t))"
proof (intro conjI allI impI)
  fix option
  assume "find (\<lambda>option. opt_required option \<and>
                (get_prop opts (extractOptionName (opt_flag option)) = Undefined \<or>
                 get_prop opts (extractOptionName (opt_flag option)) = Null))
          (args_options (args this)) = Some option"
  then have "find (\<lambda>option. opt_required option \<and>
                eq_null (get_prop opts (extractOptionName (opt_flag option))))
          (args_options (args this)) = Some option"
    by (simp add: eq_null_iff)
  then show "validateOptions this opts t = (Inr (Some (required_message (opt_flag option))), t)"
    by (rule validateOptions_missing)
next
  assume "\<forall>option\<in>set (args_options (args this)). opt_required option \<longrightarrow>
        get_prop opts (extractOptionName (opt_flag option)) \<noteq> Undefined \<and>
        get_prop opts (extractOptionName (opt_flag option)) \<noteq> Null"
  then have "check_required opts (args_options (args this)) = None"
    by (auto simp: check_required_None eq_null_iff)
  then show "validateOptions this opts t =
        (case args_validate (args this) of
           None \<Rightarrow> (Inr None, t)
         | Some v \<Rightarrow> (v opts, t @ [Validate]))"
    by (rule validateOptions_present)
next
  assume a: "(\<forall>option\<in>set (args_options (args this)). opt_required option \<longrightarrow>
        get_prop opts (extractOptionName (opt_flag option)) \<in> {JBool False, JNum 0, JStr []}) \<and>
    args_validate (args this) = None"
  then have "check_required opts (args_options (args this)) = None"
    by (auto simp: check_required_None eq_null_iff)
  from validateOptions_present[OF this] a show "validateOptions this opts t = (Inr None, t)"
    by simp
qed

lemma verbose_args:
  "args_options (args (new_command VerboseCommand [])) = [required_option ''--verbose'']"
  "args_validate (args (new_command VerboseCommand [])) = None"
  by (simp_all add: args_def new_command_def VerboseCommand_def plain_command_def plain_args_def)

lemma verbose_lookup:
  "get_prop (Map.empty(''verbose'' \<mapsto> v)) (extractOptionName ''--verbose'') = v"
  "get_prop Map.empty (extractOptionName ''--verbose'') = Undefined"
  by (simp_all add: extractOptionName_verbose get_prop_def Object_prototype_def)

theorem required_check_is_eq_null_witness:
  "validateOptions (new_command VerboseCommand []) Map.empty [] =
     (Inr (Some (required_message ''--verbose'')), []) \<and>
   validateOptions (new_command VerboseCommand []) (Map.empty(''verbose'' \<mapsto> Null)) [] =
     (Inr (Some (required_message ''--verbose'')), []) \<and>
   validateOptions (new_command VerboseCommand []) (Map.empty(''verbose'' \<mapsto> JBool False)) [] =
     (Inr None, []) \<and>
   validateOptions (new_command VerboseCommand []) (Map.empty(''verbose'' \<mapsto> JNum 0)) [] =
     (Inr None, []) \<and>
   validateOptions (new_command VerboseCommand []) (Map.empty(''verbose'' \<mapsto> JStr [])) [] =
     (Inr None, [])"
proof -
  let ?cmd = "new_command VerboseCommand []"
  let ?missing = "\<lambda>opts option. opt_required option \<and>
                (get_prop opts (extractOptionName (opt_flag option)) = Undefined \<or>
                 get_prop opts (extractOptionName (opt_flag option)) = Null)"
  have f: "opt_flag (required_option ''--verbose'') = ''--verbose''"
    by (simp add: required_option_def)
  have "find (?missing Map.empty) (args_options (args ?cmd)) = Some (required_option ''--verbose'')"
    by (simp add: verbose_args required_option_def verbose_lookup)
  with required_check_is_eq_null[of Map.empty ?cmd "[]"] f
  have 1: "validateOptions ?cmd Map.empty [] = (Inr (Some (required_message ''--verbose'')), [])"
    by simp
  have "find (?missing (Map.empty(''verbose'' \<mapsto> Null))) (args_options (args ?cmd)) =
      Some (required_option ''--verbose'')"
    by (simp add: verbose_args required_option_def verbose_lookup)
  with required_check_is_eq_null[of "Map.empty(''verbose'' \<mapsto> Null)" ?cmd "[]"] f
  have 2: "validateOptions ?cmd (Map.empty(''verbose'' \<mapsto> Null)) [] =
      (Inr (Some (required_message ''--verbose'')), [])"
    by simp
  have p: "\<forall>option\<in>set (args_options (args ?cmd)). opt_required option \<longrightarrow>
        get_prop (Map.empty(''verbose'' \<mapsto> v)) (extractOptionName (opt_flag option)) \<in>
          {JBool False, JNum 0, JStr []}"
    if "v \<in> {JBool False, JNum 0, JStr []}" for v
    using that by (simp add: verbose_args required_option_def verbose_lookup)
  have 3: "validateOptions ?cmd (Map.empty(''verbose'' \<mapsto> JBool False)) [] = (Inr None, [])"
    using required_check_is_eq_null[of "Map.empty(''verbose'' \<mapsto> JBool False)" ?cmd "[]"]
      p[of "JBool False"] verbose_args(2)
    by simp
  have 4: "validateOptions ?cmd (Map.empty(''verbose'' \<mapsto> JNum 0)) [] = (Inr None, [])"
    using required_check_is_eq_null[of "Map.empty(''verbose'' \<mapsto> JNum 0)" ?cmd "[]"]
      p[of "JNum 0"] verbose_args(2)
    by simp
  have 5: "validateOptions ?cmd (Map.empty(''verbose'' \<mapsto> JStr [])) [] = (Inr None, [])"
    using required_check_is_eq_null[of "Map.empty(''verbose'' \<mapsto> JStr [])" ?cmd "[]"]
      p[of "JStr []"] verbose_args(2)
    by simp
  from 1 2 3 4 5 show ?thesis by simp
qed

section \<open>The action: what the try block and the catch block do\<close>

lemma forEach_returns:
  "list_all (\<lambda>p. hook_returns (sel p) context) ps \<Longrightarrow>
     forEach (\<lambda>p. call_hook (ev (bp_name p)) (sel p) context) ps t =
       (Inr (), t @ plugin_calls ev sel ps)"
proof (induction ps arbitrary: t)
  case Nil
  then show ?case by (simp add: ret_def plugin_calls_def)
next
  case (Cons p ps)
  then show ?case
    by (auto simp: and_then_def call_hook_def call_def ret_def plugin_calls_def hook_returns_def
        split: option.splits)
qed

lemma call_hook_returns:
  "hook_returns h context \<Longrightarrow> call_hook ev h context t = (Inr (), t @ own_call ev h)"
  by (auto simp: call_hook_def call_def ret_def own_call_def hook_returns_def split: option.splits)

lemma validateOptions_trace:
  "validateOptions this opts t = (fst (validateOptions this opts []), t @ snd (validateOptions this opts []))"
  by (simp add: validateOptions_def ret_def call_def split: option.splits)

lemma validateOptions_events:
  "set (snd (validateOptions this opts [])) \<subseteq> {Validate}"
  by (simp add: validateOptions_def ret_def call_def split: option.splits)

lemma try_block_validation_throws:
  assumes "befores_return this context" "validation_error this opts = Some e"
  shows "try_block this opts context [] = (Inl e, before_events this opts)"
proof -
  obtain r vt where v: "validateOptions this opts [] = (r, vt)" by (cases "validateOptions this opts []")
  show ?thesis
    using assms v validateOptions_trace[of this opts "plugin_calls PluginBefore bp_beforeExecute (getPlugins this) @
     own_call CommandBefore (cc_beforeExecute (bc_class this))"]
    by (auto simp: try_block_def Let_def befores_return_def forEach_returns call_hook_returns and_then_def
        validation_error_def before_events_def throw_def ret_def
        split: sum.splits option.splits if_splits)
qed

lemma try_block_execute_throws:
  assumes "befores_return this context" "validation_error this opts = None"
    "cc_execute (bc_class this) opts = Some e"
  shows "try_block this opts context [] = (Inl e, before_events this opts @ [Execute])"
proof -
  obtain r vt where v: "validateOptions this opts [] = (r, vt)" by (cases "validateOptions this opts []")
  show ?thesis
    using assms v validateOptions_trace[of this opts "plugin_calls PluginBefore bp_beforeExecute (getPlugins this) @
     own_call CommandBefore (cc_beforeExecute (bc_class this))"]
    by (auto simp: try_block_def Let_def befores_return_def forEach_returns call_hook_returns and_then_def
        validation_error_def before_events_def throw_def ret_def call_def
        split: sum.splits option.splits if_splits)
qed

lemma try_block_returns:
  assumes "befores_return this context" "validation_error this opts = None"
    "cc_execute (bc_class this) opts = None" "afters_return this context"
  shows "try_block this opts context [] =
     (Inr (), before_events this opts @ [Execute] @
        own_call CommandAfter (cc_afterExecute (bc_class this)) @
        plugin_calls PluginAfter bp_afterExecute (getPlugins this))"
proof -
  obtain r vt where v: "validateOptions this opts [] = (r, vt)" by (cases "validateOptions this opts []")
  show ?thesis
    using assms v validateOptions_trace[of this opts "plugin_calls PluginBefore bp_beforeExecute (getPlugins this) @
     own_call CommandBefore (cc_beforeExecute (bc_class this))"]
    by (auto simp: try_block_def Let_def befores_return_def afters_return_def forEach_returns call_hook_returns and_then_def
        validation_error_def before_events_def throw_def ret_def call_def
        split: sum.splits option.splits if_splits)
qed

lemma catch_block_result:
  "catch_block this context e t =
     (case cc_onError (bc_class this) e context of
        Inl e' \<Rightarrow> Inl e'
      | Inr handled \<Rightarrow> if handled then Inr () else Inl e,
      t @ [OnError e])"
  by (simp add: catch_block_def and_then_def call_def throw_def ret_def split: sum.splits)

lemma setupAction_returns:
  assumes "befores_return this (make_context this opts arguments now)"
    "validation_error this opts = None"
    "cc_execute (bc_class this) opts = None"
    "afters_return this (make_context this opts arguments now)"
  shows "setupAction this opts arguments now [] =
     (Inr (), before_events this opts @ [Execute] @
        own_call CommandAfter (cc_afterExecute (bc_class this)) @
        plugin_calls PluginAfter bp_afterExecute (getPlugins this))"
  using try_block_returns[OF assms]
  by (simp add: setupAction_def Let_def try_catch_def)

lemma setupAction_raised:
  assumes "raised_in_validation_or_body this opts (make_context this opts arguments now) e"
  shows "setupAction this opts arguments now [] =
     (case cc_onError (bc_class this) e (make_context this opts arguments now) of
        Inl e' \<Rightarrow> Inl e'
      | Inr handled \<Rightarrow> if handled then Inr () else Inl e,
      before_events this opts @ (if validation_error this opts = None then [Execute] else []) @
        [OnError e])"
proof (cases "validation_error this opts")
  case None
  with assms have "try_block this opts (make_context this opts arguments now) [] =
      (Inl e, before_events this opts @ [Execute])"
    by (intro try_block_execute_throws) (auto simp: raised_in_validation_or_body_def)
  with None show ?thesis
    by (simp add: setupAction_def Let_def try_catch_def catch_block_result)
next
  case (Some e')
  with assms have "try_block this opts (make_context this opts arguments now) [] =
      (Inl e, before_events this opts)"
    by (intro try_block_validation_throws) (auto simp: raised_in_validation_or_body_def)
  with Some show ?thesis
    by (simp add: setupAction_def Let_def try_catch_def catch_block_result)
qed




lemma hook_calls_Cons:
  "hook_calls (ev # xs) = (if is_hook_call ev then ev # hook_calls xs else hook_calls xs)"
  "hook_calls [] = []"
  by (simp_all add: hook_calls_def)



lemma test_validation_error:
  "validation_error (new_command TestCommand []) Map.empty =
     Some (Error (required_message ''--name <value>''))"
  by (simp add: validation_error_def validateOptions_def args_def new_command_def
      TestCommand_def get_prop_def Object_prototype_def extractOptionName_name eq_null_def ret_def
      required_message_def)











text \<open>
  \<open>if (validationError)\<close> is a truthiness test: an empty message is not thrown.
\<close>

lemma before_events_no_execute: "Execute \<notin> set (before_events this opts)"
  using validateOptions_events[of this opts]
  by (auto simp: before_events_def plugin_calls_def own_call_def split: option.splits)

lemma empty_message_is_not_thrown:
  "fst (validateOptions this opts []) = Inr (Some []) \<Longrightarrow> validation_error this opts = None"
  by (simp add: validation_error_def)


section \<open>The build command with the logger and the timer\<close>

lemma installed_logger_timer:
  "installed_instances (installs [(LoggerPlugin, False), (TimerPlugin, False)] reset) =
     [new_plugin LoggerPlugin, new_plugin TimerPlugin]"
  "installed_instances (installs [(TimerPlugin, False), (LoggerPlugin, False)] reset) =
     [new_plugin LoggerPlugin, new_plugin TimerPlugin]"
  by (simp_all add: installed_instances_def install_def reset_def LoggerPlugin_def
      TimerPlugin_def new_plugin_def Let_def)


lemma build_program_dispatch:
  assumes "calls = [(LoggerPlugin, False), (TimerPlugin, False)] \<or>
           calls = [(TimerPlugin, False), (LoggerPlugin, False)]"
  shows "dispatch (build_program calls) ''build'' opts arguments now =
     Some (setupAction build_instance opts arguments now [])"
proof -
  have c: "reg_commands (installs calls reset) = Map.empty"
    unfolding installs_commands by (simp add: reset_def)
  have i: "installed_instances (installs calls reset) =
      [new_plugin LoggerPlugin, new_plugin TimerPlugin]"
    using assms installed_logger_timer by auto
  have "cc_name BuildCommand = ''build''" by (simp add: BuildCommand_def)
  then show ?thesis
    using c i
    by (simp add: build_program_def use_def Let_def run_def dispatch_def setupCommand_def
        installed_instances_def build_instance_def)
qed

lemma build_plugins:
  "getPlugins build_instance = [new_plugin LoggerPlugin, new_plugin TimerPlugin]"
  by (simp add: build_instance_def getPlugins_def new_command_def args_def BuildCommand_def
      new_plugin_def LoggerPlugin_def TimerPlugin_def)

lemma build_validation:
  "validateOptions build_instance opts [] = (build_validate opts, [Validate])"
  by (simp add: validateOptions_def build_instance_def new_command_def args_def
      BuildCommand_def build_option_def call_def)

lemma build_returns:
  assumes "build_validate opts = Inr None"
  shows "setupAction build_instance opts arguments now [] =
     (Inr (), [PluginBefore ''logger'', PluginBefore ''timer'', CommandBefore, Validate,
               Execute, CommandAfter, PluginAfter ''logger'', PluginAfter ''timer''])"
proof -
  have "befores_return build_instance (make_context build_instance opts arguments now)"
       "afters_return build_instance (make_context build_instance opts arguments now)"
    unfolding befores_return_def afters_return_def build_plugins
    by (simp_all add: hook_returns_def new_plugin_def LoggerPlugin_def TimerPlugin_def
        build_instance_def new_command_def BuildCommand_def)
  moreover have "validation_error build_instance opts = None"
    using assms by (simp add: validation_error_def build_validation)
  moreover have "cc_execute (bc_class build_instance) opts = None"
    by (simp add: build_instance_def new_command_def BuildCommand_def)
  ultimately have "setupAction build_instance opts arguments now [] =
     (Inr (), before_events build_instance opts @ [Execute] @
        own_call CommandAfter (cc_afterExecute (bc_class build_instance)) @
        plugin_calls PluginAfter bp_afterExecute (getPlugins build_instance))"
    by (intro setupAction_returns)
  then show ?thesis
    unfolding before_events_def build_plugins build_validation
    by (simp add: plugin_calls_def own_call_def new_plugin_def LoggerPlugin_def TimerPlugin_def
        build_instance_def new_command_def BuildCommand_def)
qed

lemma build_valid_production:
  "build_validate (Map.empty(''mode'' \<mapsto> JStr ''production'')) = Inr None"
  "build_validate Map.empty = Inr None"
  by (simp_all add: build_validate_def get_prop_def Object_prototype_def truthy_def)

section \<open>The action when user code writes the options\<close>

lemma call_hook_w_frame:
  "call_hook_w ev h context s = (r, s') \<Longrightarrow>
     inv_trace s' = inv_trace s \<or> inv_trace s' = inv_trace s @ [(ev, inv_options s)]"
  by (auto simp: call_hook_w_def call_w_def ret_w_def split: option.splits prod.splits)

lemma forEach_w_frame:
  "forEach_w (\<lambda>p. call_hook_w (ev (pw_name p)) (sel p) context) ps s = (r, s') \<Longrightarrow>
     \<exists>es. inv_trace s' = inv_trace s @ es \<and> fst ` set es \<subseteq> range ev"
proof (induction ps arbitrary: s)
  case Nil
  then show ?case by (simp add: ret_w_def)
next
  case (Cons p ps)
  show ?case
  proof (cases "call_hook_w (ev (pw_name p)) (sel p) context s")
    case (Pair r1 s1)
    from call_hook_w_frame[OF Pair]
    have t1: "\<exists>es. inv_trace s1 = inv_trace s @ es \<and> fst ` set es \<subseteq> range ev" by auto
    show ?thesis
    proof (cases r1)
      case (Inl e)
      with Pair Cons.prems t1 show ?thesis
        by (auto simp: and_then_w_def)
    next
      case (Inr u)
      with Pair Cons.prems
      have "forEach_w (\<lambda>p. call_hook_w (ev (pw_name p)) (sel p) context) ps s1 = (r, s')"
        by (simp add: and_then_w_def)
      from Cons.IH[OF this] obtain es where es: "inv_trace s' = inv_trace s1 @ es" "fst ` set es \<subseteq> range ev"
        by blast
      from t1 obtain es1 where es1: "inv_trace s1 = inv_trace s @ es1" "fst ` set es1 \<subseteq> range ev"
        by blast
      show ?thesis
      proof (intro exI[of _ "es1 @ es"] conjI)
        show "inv_trace s' = inv_trace s @ es1 @ es" using es(1) es1(1) by simp
        show "fst ` set (es1 @ es) \<subseteq> range ev" using es(2) es1(2) by auto
      qed
    qed
  qed
qed

lemma befores_w_frame:
  assumes "befores_w this context s = (r, s')"
  shows "\<exists>es. inv_trace s' = inv_trace s @ es \<and> Execute \<notin> fst ` set es"
proof -
  obtain r1 s1 where f: "forEach_w (\<lambda>plugin.
         call_hook_w (PluginBefore (pw_name plugin)) (pw_beforeExecute plugin) context)
       (getPlugins_w this) s = (r1, s1)"
    by (cases "forEach_w (\<lambda>plugin.
         call_hook_w (PluginBefore (pw_name plugin)) (pw_beforeExecute plugin) context)
       (getPlugins_w this) s")
  from forEach_w_frame[OF f] obtain es1 where
    es1: "inv_trace s1 = inv_trace s @ es1" "fst ` set es1 \<subseteq> range PluginBefore" by blast
  then have no1: "Execute \<notin> fst ` set es1" by auto
  show ?thesis
  proof (cases r1)
    case (Inl e)
    with f assms have "s' = s1" by (simp add: befores_w_def and_then_w_def)
    with es1(1) no1 show ?thesis by blast
  next
    case (Inr u)
    with f assms have "call_hook_w CommandBefore (cw_beforeExecute this) context s1 = (r, s')"
      by (simp add: befores_w_def and_then_w_def)
    from call_hook_w_frame[OF this] es1(1) no1 show ?thesis by auto
  qed
qed

lemma body_w_frame:
  assumes "body_w this context s = (r, s')"
  shows "\<exists>es. inv_trace s' = inv_trace s @ (Execute, inv_options s) # es \<and>
            Execute \<notin> fst ` set es"
proof -
  obtain r0 s0 where x: "call_w Execute (\<lambda>current.
         case cw_execute this current of (r, written) \<Rightarrow> (thrown r, written)) s = (r0, s0)"
    by (cases "call_w Execute (\<lambda>current.
         case cw_execute this current of (r, written) \<Rightarrow> (thrown r, written)) s")
  then have t0: "inv_trace s0 = inv_trace s @ [(Execute, inv_options s)]"
    by (auto simp: call_w_def split: prod.splits)
  show ?thesis
  proof (cases r0)
    case (Inl e)
    with x assms have "s' = s0" by (simp add: body_w_def and_then_w_def)
    with t0 show ?thesis by simp
  next
    case (Inr u)
    obtain r1 s1 where c: "call_hook_w CommandAfter (cw_afterExecute this) context s0 = (r1, s1)"
      by (cases "call_hook_w CommandAfter (cw_afterExecute this) context s0")
    from call_hook_w_frame[OF c] obtain es1 where
      es1: "inv_trace s1 = inv_trace s0 @ es1" "Execute \<notin> fst ` set es1" by auto
    show ?thesis
    proof (cases r1)
      case (Inl e)
      with Inr x c assms have "s' = s1" by (simp add: body_w_def and_then_w_def)
      with t0 es1 show ?thesis by simp
    next
      case u1: (Inr u1)
      with Inr x c assms have "forEach_w (\<lambda>plugin.
         call_hook_w (PluginAfter (pw_name plugin)) (pw_afterExecute plugin) context)
       (getPlugins_w this) s1 = (r, s')"
        by (simp add: body_w_def and_then_w_def)
      from forEach_w_frame[OF this] obtain es2 where
        es2: "inv_trace s' = inv_trace s1 @ es2" "fst ` set es2 \<subseteq> range PluginAfter" by blast
      then have "Execute \<notin> fst ` set es2" by auto
      with es1 es2(1) t0 have "inv_trace s' = inv_trace s @ (Execute, inv_options s) # (es1 @ es2)"
        "Execute \<notin> fst ` set (es1 @ es2)" by auto
      then show ?thesis by blast
    qed
  qed
qed

lemma catch_block_w_result:
  "catch_block_w this context e s =
     (case cw_onError this e (context\<lparr>ctx_options := inv_options s\<rparr>) of
        Inl e' \<Rightarrow> Inl e'
      | Inr handled \<Rightarrow> if handled then Inr () else Inl e,
      \<lparr>inv_trace = inv_trace s @ [(OnError e, inv_options s)], inv_options = inv_options s\<rparr>)"
  by (simp add: catch_block_w_def and_then_w_def call_w_def throw_w_def ret_w_def split: sum.splits)

text \<open>The \<open>try\<close> block is the before-hooks, then validation, then the body.\<close>

lemma try_block_w_split:
  "try_block_w this context =
     and_then_w (befores_w this context) (\<lambda>_.
     and_then_w (validateOptions_w this) (\<lambda>validationError.
     and_then_w (case validationError of
                   None \<Rightarrow> ret_w ()
                 | Some message \<Rightarrow> if message \<noteq> [] then throw_w (Error message) else ret_w ()) (\<lambda>_.
     body_w this context)))"
  by (rule ext)
     (simp add: try_block_w_def befores_w_def body_w_def and_then_w_def Let_def
        split: prod.splits sum.splits)

lemma lacks_value_eta:
  "(\<lambda>option. opt_required option \<and> eq_null (get_prop opts (extractOptionName (opt_flag option)))) =
     lacks_value opts"
  by (rule ext) (simp add: lacks_value_def)

lemma validateOptions_w_missing:
  assumes "find (lacks_value (inv_options s)) (cw_options this) = Some option"
  shows "validateOptions_w this s = (Inr (Some (required_message (opt_flag option))), s)"
  using assms by (simp add: validateOptions_w_def check_required_find lacks_value_eta ret_w_def)

lemma validateOptions_w_present:
  assumes "\<not> list_ex (lacks_value (inv_options s)) (cw_options this)"
  shows "validateOptions_w this s =
     (case cw_validate this of
        None \<Rightarrow> (Inr None, s)
      | Some v \<Rightarrow>
          (fst (v (inv_options s)),
           \<lparr>inv_trace = inv_trace s @ [(Validate, inv_options s)],
            inv_options = snd (v (inv_options s))\<rparr>))"
proof -
  from assms have "find (lacks_value (inv_options s)) (cw_options this) = None"
    by (simp add: find_None_iff list_ex_iff)
  then show ?thesis
    by (simp add: validateOptions_w_def check_required_find lacks_value_eta ret_w_def call_w_def
        split: option.splits prod.splits)
qed

lemma lacks_value_find:
  "list_ex (lacks_value opts) defs \<Longrightarrow> \<exists>option. find (lacks_value opts) defs = Some option"
  by (cases "find (lacks_value opts) defs") (auto simp: find_None_iff list_ex_iff)

lemma validateOptions_w_frame:
  assumes "validateOptions_w this s = (r, s')"
  shows "(inv_trace s' = inv_trace s \<or> inv_trace s' = inv_trace s @ [(Validate, inv_options s)]) \<and>
     (\<not> list_ex (lacks_value (inv_options s)) (cw_options this) \<longrightarrow>
        inv_options s' = left_by_validator this (inv_options s))"
proof (cases "list_ex (lacks_value (inv_options s)) (cw_options this)")
  case True
  from lacks_value_find[OF this] obtain option where
    "find (lacks_value (inv_options s)) (cw_options this) = Some option" ..
  from validateOptions_w_missing[OF this] assms True show ?thesis by simp
next
  case False
  from validateOptions_w_present[OF this] assms False show ?thesis
    by (auto simp: left_by_validator_def split: option.splits)
qed

text \<open>
  What the action does, by the outcome of the before-hooks and of validation.
\<close>

lemma setupAction_w_before_throws:
  assumes "before_part this opts arguments now = (Inl e, s1)"
  shows "setupAction_w this opts arguments now =
     catch_block_w this (context_w this opts arguments now) e s1"
  using assms
  by (simp add: setupAction_w_def before_part_def Let_def try_catch_w_def try_block_w_split
      and_then_w_def)

lemma setupAction_w_validation_throws:
  assumes "before_part this opts arguments now = (Inr (), s1)"
    "validateOptions_w this s1 = (Inl e, s2)"
  shows "setupAction_w this opts arguments now =
     catch_block_w this (context_w this opts arguments now) e s2"
  using assms
  by (simp add: setupAction_w_def before_part_def Let_def try_catch_w_def try_block_w_split
      and_then_w_def)

lemma setupAction_w_message:
  assumes "before_part this opts arguments now = (Inr (), s1)"
    "validateOptions_w this s1 = (Inr (Some message), s2)" "message \<noteq> []"
  shows "setupAction_w this opts arguments now =
     catch_block_w this (context_w this opts arguments now) (Error message) s2"
  using assms
  by (simp add: setupAction_w_def before_part_def Let_def try_catch_w_def try_block_w_split
      and_then_w_def throw_w_def)

lemma setupAction_w_body:
  assumes "before_part this opts arguments now = (Inr (), s1)"
    "validateOptions_w this s1 = (Inr v, s2)" "v = None \<or> v = Some []"
  shows "setupAction_w this opts arguments now =
     try_catch_w (body_w this (context_w this opts arguments now))
       (catch_block_w this (context_w this opts arguments now)) s2"
  using assms
  by (auto simp: setupAction_w_def before_part_def Let_def try_catch_w_def try_block_w_split
      and_then_w_def ret_w_def split: prod.splits sum.splits)

lemma body_w_caught_frame:
  "\<exists>es. inv_trace (snd (try_catch_w (body_w this context) (catch_block_w this context) s)) =
          inv_trace s @ (Execute, inv_options s) # es \<and> Execute \<notin> fst ` set es"
proof (cases "body_w this context s")
  case (Pair r s')
  from body_w_frame[OF Pair] obtain es where
    es: "inv_trace s' = inv_trace s @ (Execute, inv_options s) # es" "Execute \<notin> fst ` set es"
    by blast
  show ?thesis
  proof (cases r)
    case (Inl e)
    with Pair es have "inv_trace (snd (try_catch_w (body_w this context) (catch_block_w this context) s)) =
          inv_trace s @ (Execute, inv_options s) # (es @ [(OnError e, inv_options s')])"
      "Execute \<notin> fst ` set (es @ [(OnError e, inv_options s')])"
      by (simp_all add: try_catch_w_def catch_block_w_result)
    then show ?thesis by blast
  next
    case (Inr u)
    with Pair es show ?thesis by (auto simp: try_catch_w_def)
  qed
qed

lemma before_part_frame:
  "Execute \<notin> fst ` set (inv_trace (snd (before_part this opts arguments now)))"
proof (cases "before_part this opts arguments now")
  case (Pair r s1)
  then have "befores_w this (context_w this opts arguments now)
      \<lparr>inv_trace = [], inv_options = opts\<rparr> = (r, s1)"
    by (simp add: before_part_def)
  from befores_w_frame[OF this] Pair show ?thesis by auto
qed

text \<open>
  User code that leaves the options as they are: the action of this section does what
  the action of the sections above does.
\<close>

lemma corresponds_ret: "corresponds opts (ret_w x) (ret x)"
  by (simp add: corresponds_def ret_w_def ret_def)

lemma corresponds_throw: "corresponds opts (throw_w e) (throw e)"
  by (simp add: corresponds_def throw_w_def throw_def)

lemma corresponds_and_then:
  assumes "corresponds opts m_w m" "\<And>x. corresponds opts (f_w x) (f x)"
  shows "corresponds opts (and_then_w m_w f_w) (and_then m f)"
  unfolding corresponds_def
proof
  fix t
  from assms(1) have m: "m_w (with_options opts t) = (fst (m t), with_options opts (snd (m t)))"
    by (simp add: corresponds_def)
  show "and_then_w m_w f_w (with_options opts t) =
      (fst (and_then m f t), with_options opts (snd (and_then m f t)))"
  proof (cases "m t")
    case (Pair r t')
    show ?thesis
    proof (cases r)
      case (Inl e)
      with Pair m show ?thesis by (simp add: and_then_w_def and_then_def)
    next
      case (Inr x)
      from assms(2)[of x] have "f_w x (with_options opts t') =
          (fst (f x t'), with_options opts (snd (f x t')))"
        by (simp add: corresponds_def)
      with Inr Pair m show ?thesis by (simp add: and_then_w_def and_then_def)
    qed
  qed
qed

lemma corresponds_try_catch:
  assumes "corresponds opts m_w m" "\<And>e. corresponds opts (h_w e) (h e)"
  shows "corresponds opts (try_catch_w m_w h_w) (try_catch m h)"
  unfolding corresponds_def
proof
  fix t
  from assms(1) have m: "m_w (with_options opts t) = (fst (m t), with_options opts (snd (m t)))"
    by (simp add: corresponds_def)
  show "try_catch_w m_w h_w (with_options opts t) =
      (fst (try_catch m h t), with_options opts (snd (try_catch m h t)))"
  proof (cases "m t")
    case (Pair r t')
    show ?thesis
    proof (cases r)
      case (Inl e)
      from assms(2)[of e] have "h_w e (with_options opts t') =
          (fst (h e t'), with_options opts (snd (h e t')))"
        by (simp add: corresponds_def)
      with Inl Pair m show ?thesis by (simp add: try_catch_w_def try_catch_def)
    next
      case (Inr x)
      with Pair m show ?thesis by (simp add: try_catch_w_def try_catch_def)
    qed
  qed
qed

lemma corresponds_call:
  "corresponds opts (call_w ev (\<lambda>current. (outcome current, current))) (call ev (outcome opts))"
  by (simp add: corresponds_def call_w_def call_def with_options_def)

lemma corresponds_call_hook:
  assumes "ctx_options context = opts"
  shows "corresponds opts (call_hook_w ev (map_option lift_hook h) context) (call_hook ev h context)"
proof (cases h)
  case None
  then show ?thesis by (simp add: call_hook_w_def call_hook_def corresponds_ret)
next
  case (Some f)
  have "context\<lparr>ctx_options := opts\<rparr> = context" using assms by simp
  with Some show ?thesis
    by (simp add: corresponds_def call_hook_w_def call_hook_def call_w_def call_def
        with_options_def lift_hook_def thrown_def)
qed

lemma corresponds_forEach:
  assumes "\<And>x. corresponds opts (f_w (g x)) (f x)"
  shows "corresponds opts (forEach_w f_w (map g xs)) (forEach f xs)"
proof (induction xs)
  case Nil
  show ?case by (simp add: corresponds_ret)
next
  case (Cons x xs)
  from corresponds_and_then[OF assms[of x], of "\<lambda>_. forEach_w f_w (map g xs)" "\<lambda>_. forEach f xs"] Cons
  show ?case by simp
qed

lemma getPlugins_w_lift: "getPlugins_w (lift_command this) = map lift_plugin (getPlugins this)"
  by (simp add: getPlugins_w_def getPlugins_def lift_command_def lift_plugin_def filter_map
      comp_def)

lemma corresponds_validateOptions:
  "corresponds opts (validateOptions_w (lift_command this)) (validateOptions this opts)"
  by (simp add: corresponds_def validateOptions_w_def validateOptions_def lift_command_def
      with_options_def ret_w_def ret_def call_w_def call_def split: option.splits)

lemma corresponds_try_block:
  assumes "ctx_options context = opts"
  shows "corresponds opts (try_block_w (lift_command this) context) (try_block this opts context)"
proof -
  have before: "corresponds opts
      (call_hook_w (PluginBefore (pw_name (lift_plugin p))) (pw_beforeExecute (lift_plugin p)) context)
      (call_hook (PluginBefore (bp_name p)) (bp_beforeExecute p) context)" for p
    using corresponds_call_hook[OF assms, of "PluginBefore (bp_name p)" "bp_beforeExecute p"]
    by (simp add: lift_plugin_def)
  have after: "corresponds opts
      (call_hook_w (PluginAfter (pw_name (lift_plugin p))) (pw_afterExecute (lift_plugin p)) context)
      (call_hook (PluginAfter (bp_name p)) (bp_afterExecute p) context)" for p
    using corresponds_call_hook[OF assms, of "PluginAfter (bp_name p)" "bp_afterExecute p"]
    by (simp add: lift_plugin_def)
  have own: "cw_beforeExecute (lift_command this) = map_option lift_hook (cc_beforeExecute (bc_class this))"
    "cw_afterExecute (lift_command this) = map_option lift_hook (cc_afterExecute (bc_class this))"
    by (simp_all add: lift_command_def)
  have exec: "corresponds opts
      (call_w Execute (\<lambda>current.
          case cw_execute (lift_command this) current of (r, written) \<Rightarrow> (thrown r, written)))
      (call Execute (case cc_execute (bc_class this) opts of None \<Rightarrow> Inr () | Some e \<Rightarrow> Inl e))"
    using corresponds_call[of opts Execute "\<lambda>current. thrown (cc_execute (bc_class this) current)"]
    by (simp add: lift_command_def thrown_def)
  show ?thesis
    unfolding try_block_w_def try_block_def Let_def getPlugins_w_lift own
    by (intro corresponds_and_then corresponds_forEach before after corresponds_call_hook assms
        corresponds_validateOptions exec)
       (auto intro: corresponds_ret corresponds_throw split: option.splits)
qed

lemma corresponds_catch_block:
  assumes "ctx_options context = opts"
  shows "corresponds opts (catch_block_w (lift_command this) context e) (catch_block this context e)"
proof -
  have "context\<lparr>ctx_options := opts\<rparr> = context" using assms by simp
  then have "corresponds opts
      (call_w (OnError e) (\<lambda>current.
         (cw_onError (lift_command this) e (context\<lparr>ctx_options := current\<rparr>), current)))
      (call (OnError e) (cc_onError (bc_class this) e context))"
    by (simp add: corresponds_def call_w_def call_def with_options_def lift_command_def)
  then show ?thesis
    unfolding catch_block_w_def catch_block_def
    by (intro corresponds_and_then) (auto intro: corresponds_ret corresponds_throw)
qed

lemma setupAction_w_lift:
  "setupAction_w (lift_command this) opts arguments now =
     (fst (setupAction this opts arguments now []),
      with_options opts (snd (setupAction this opts arguments now [])))"
proof -
  have c: "context_w (lift_command this) opts arguments now = make_context this opts arguments now"
    by (simp add: context_w_def make_context_def lift_command_def)
  have o: "ctx_options (make_context this opts arguments now) = opts"
    by (simp add: make_context_def)
  let ?ctx = "make_context this opts arguments now"
  have "corresponds opts (try_block_w (lift_command this) ?ctx) (try_block this opts ?ctx)"
    by (rule corresponds_try_block[OF o])
  moreover have "corresponds opts (catch_block_w (lift_command this) ?ctx e)
      (catch_block this ?ctx e)" for e
    by (rule corresponds_catch_block[OF o])
  ultimately have "corresponds opts
      (try_catch_w (try_block_w (lift_command this) ?ctx) (catch_block_w (lift_command this) ?ctx))
      (try_catch (try_block this opts ?ctx) (catch_block this ?ctx))"
    by (rule corresponds_try_catch)
  then have "try_catch_w (try_block_w (lift_command this) ?ctx) (catch_block_w (lift_command this) ?ctx)
        (with_options opts []) =
      (fst (try_catch (try_block this opts ?ctx) (catch_block this ?ctx) []),
       with_options opts (snd (try_catch (try_block this opts ?ctx) (catch_block this ?ctx) [])))"
    by (simp add: corresponds_def)
  then show ?thesis
    by (simp add: setupAction_w_def setupAction_def Let_def c with_options_def)
qed

lemma execute_observed:
  assumes "(Execute, observed) \<in> set (inv_trace (snd (setupAction_w this opts arguments now)))"
  shows "fst (before_part this opts arguments now) = Inr () \<and>
     \<not> list_ex (lacks_value (inv_options (snd (before_part this opts arguments now))))
         (cw_options this) \<and>
     observed = left_by_validator this (inv_options (snd (before_part this opts arguments now)))"
proof -
  let ?ctx = "context_w this opts arguments now"
  obtain r1 s1 where b: "before_part this opts arguments now = (r1, s1)"
    by (cases "before_part this opts arguments now")
  from before_part_frame[of this opts arguments now] b
  have no1: "Execute \<notin> fst ` set (inv_trace s1)" by simp
  have caught: False
    if "setupAction_w this opts arguments now = catch_block_w this ?ctx e s2"
      "Execute \<notin> fst ` set (inv_trace s2)" for e s2
    using that assms by (force simp: catch_block_w_result)
  show ?thesis
  proof (cases r1)
    case (Inl e)
    with b setupAction_w_before_throws[of this opts arguments now e s1] caught no1
    show ?thesis by blast
  next
    case (Inr u)
    with b have b': "before_part this opts arguments now = (Inr (), s1)" by simp
    obtain rv s2 where v: "validateOptions_w this s1 = (rv, s2)"
      by (cases "validateOptions_w this s1")
    from validateOptions_w_frame[OF v] no1
    have no2: "Execute \<notin> fst ` set (inv_trace s2)"
      and left: "\<not> list_ex (lacks_value (inv_options s1)) (cw_options this) \<Longrightarrow>
          inv_options s2 = left_by_validator this (inv_options s1)"
      by auto
    have present: "\<not> list_ex (lacks_value (inv_options s1)) (cw_options this)"
    proof
      assume "list_ex (lacks_value (inv_options s1)) (cw_options this)"
      from lacks_value_find[OF this] obtain option where
        "find (lacks_value (inv_options s1)) (cw_options this) = Some option" ..
      from validateOptions_w_missing[OF this]
      have "validateOptions_w this s1 = (Inr (Some (required_message (opt_flag option))), s1)" .
      from setupAction_w_message[OF b' this required_message_nonempty] caught no1
      show False by blast
    qed
    have "observed = inv_options s2"
    proof (cases rv)
      case (Inl e)
      with v setupAction_w_validation_throws[OF b', of e s2] caught no2 show ?thesis by blast
    next
      case (Inr verr)
      show ?thesis
      proof (cases "verr = None \<or> verr = Some []")
        case True
        from setupAction_w_body[OF b' _ True] v Inr
        have "setupAction_w this opts arguments now =
            try_catch_w (body_w this ?ctx) (catch_block_w this ?ctx) s2" by simp
        with body_w_caught_frame[of this ?ctx s2] obtain es where
          "inv_trace (snd (setupAction_w this opts arguments now)) =
             inv_trace s2 @ (Execute, inv_options s2) # es" "Execute \<notin> fst ` set es"
          by auto
        with assms no2 show ?thesis by force
      next
        case False
        then obtain message where "verr = Some message" "message \<noteq> []" by (cases verr) auto
        with v Inr setupAction_w_message[OF b', of message s2] caught no2 show ?thesis by blast
      qed
    qed
    with b' present left show ?thesis by simp
  qed
qed

lemma missing_is_raised:
  assumes "fst (before_part this opts arguments now) = Inr ()"
    "find (lacks_value (inv_options (snd (before_part this opts arguments now))))
       (cw_options this) = Some option"
  shows "inv_trace (snd (setupAction_w this opts arguments now)) =
        inv_trace (snd (before_part this opts arguments now)) @
        [(OnError (Error (required_message (opt_flag option))),
          inv_options (snd (before_part this opts arguments now)))]"
proof -
  obtain s1 where b: "before_part this opts arguments now = (Inr (), s1)"
    using assms(1) by (cases "before_part this opts arguments now") auto
  with assms(2) have "find (lacks_value (inv_options s1)) (cw_options this) = Some option" by simp
  from setupAction_w_message[OF b validateOptions_w_missing[OF this] required_message_nonempty] b
  show ?thesis by (simp add: catch_block_w_result)
qed


lemma validated_frame:
  assumes "validateOptions_w this (snd (before_part this opts arguments now)) = (r, s2)"
  shows "Execute \<notin> fst ` set (inv_trace s2)"
  using validateOptions_w_frame[OF assms] before_part_frame[of this opts arguments now]
  by auto


text \<open>The lifted test command, and what the examples do.\<close>

lemma test_w_members:
  "cw_options (lift_command (new_command TestCommand [])) =
     [\<lparr>opt_flag = ''--name <value>'', opt_abbreviation = Some ''-n'',
       opt_description = None, opt_defaultValue = Undefined, opt_required = True\<rparr>,
      \<lparr>opt_flag = ''--verbose'', opt_abbreviation = Some ''-v'',
       opt_description = None, opt_defaultValue = Undefined, opt_required = False\<rparr>]"
  "cw_validate (lift_command (new_command TestCommand [])) =
     Some (\<lambda>current. (test_validate current, current))"
  "cw_beforeExecute (lift_command (new_command TestCommand [])) = None"
  "cw_afterExecute (lift_command (new_command TestCommand [])) = None"
  "cw_execute (lift_command (new_command TestCommand [])) = (\<lambda>current. (None, current))"
  "cw_onError (lift_command (new_command TestCommand [])) = onError"
  "getPlugins_w (lift_command (new_command TestCommand [])) = []"
  by (simp_all add: lift_command_def new_command_def TestCommand_def args_def getPlugins_w_def)

lemma name_lacks_value:
  "lacks_value opts \<lparr>opt_flag = ''--name <value>'', opt_abbreviation = a,
       opt_description = d, opt_defaultValue = v, opt_required = True\<rparr> \<longleftrightarrow>
     opts ''name'' = None \<or> opts ''name'' = Some Undefined \<or> opts ''name'' = Some Null"
  by (auto simp: lacks_value_def extractOptionName_name get_prop_def Object_prototype_def
      eq_null_iff split: option.splits)

lemma optional_lacks_nothing:
  "\<not> lacks_value opts \<lparr>opt_flag = f, opt_abbreviation = a,
       opt_description = d, opt_defaultValue = v, opt_required = False\<rparr>"
  by (simp add: lacks_value_def)

lemma test_w_before_part:
  "before_part (lift_command (new_command TestCommand [])) opts arguments now =
     (Inr (), \<lparr>inv_trace = [], inv_options = opts\<rparr>)"
  by (simp add: before_part_def befores_w_def test_w_members and_then_w_def ret_w_def
      call_hook_w_def)

lemma supplying_members:
  "cw_options SupplyingCommand = cw_options (lift_command (new_command TestCommand []))"
  "cw_validate SupplyingCommand = Some (\<lambda>current. (test_validate current, current))"
  "cw_beforeExecute SupplyingCommand =
     Some (\<lambda>context. (None, (ctx_options context)(''name'' \<mapsto> JStr ''fallback'')))"
  "cw_afterExecute SupplyingCommand = None"
  "cw_execute SupplyingCommand = (\<lambda>current. (None, current))"
  "getPlugins_w SupplyingCommand = []"
  by (simp_all add: SupplyingCommand_def test_w_members getPlugins_w_def)
     (simp_all add: lift_command_def new_command_def TestCommand_def args_def)

lemma supplying_before_part:
  "before_part SupplyingCommand opts arguments now =
     (Inr (), \<lparr>inv_trace = [(CommandBefore, opts)],
               inv_options = opts(''name'' \<mapsto> JStr ''fallback'')\<rparr>)"
  by (simp add: before_part_def befores_w_def supplying_members and_then_w_def ret_w_def
      call_hook_w_def call_w_def thrown_def context_w_def)

lemma supplying_runs_any:
  "setupAction_w SupplyingCommand opts [] 0 =
     (Inr (), \<lparr>inv_trace = [(CommandBefore, opts),
                             (Validate, opts(''name'' \<mapsto> JStr ''fallback'')),
                             (Execute, opts(''name'' \<mapsto> JStr ''fallback''))],
               inv_options = opts(''name'' \<mapsto> JStr ''fallback'')\<rparr>)"
proof -
  let ?o = "opts(''name'' \<mapsto> JStr ''fallback'')"
  let ?s1 = "\<lparr>inv_trace = [(CommandBefore, opts)], inv_options = ?o\<rparr>"
  have "\<not> list_ex (lacks_value (inv_options ?s1)) (cw_options SupplyingCommand)"
    by (simp add: supplying_members test_w_members name_lacks_value optional_lacks_nothing)
  from validateOptions_w_present[OF this]
  have v: "validateOptions_w SupplyingCommand ?s1 =
      (Inr None, \<lparr>inv_trace = [(CommandBefore, opts), (Validate, ?o)], inv_options = ?o\<rparr>)"
    by (simp add: supplying_members test_validate_def get_prop_def)
  from setupAction_w_body[OF supplying_before_part v]
  show ?thesis
    by (simp add: try_catch_w_def body_w_def and_then_w_def call_w_def call_hook_w_def ret_w_def
        thrown_def supplying_members)
qed

lemma verbose_w_runs:
  "setupAction_w (lift_command (new_command VerboseCommand []))
       (Map.empty(''verbose'' \<mapsto> JBool False)) [] 0 =
     (Inr (), \<lparr>inv_trace = [(Execute, Map.empty(''verbose'' \<mapsto> JBool False))],
               inv_options = Map.empty(''verbose'' \<mapsto> JBool False)\<rparr>)"
  by (simp add: setupAction_w_def try_catch_w_def try_block_w_def and_then_w_def Let_def
      lift_command_def new_command_def VerboseCommand_def plain_command_def plain_args_def
      args_def getPlugins_w_def ret_w_def call_hook_w_def validateOptions_w_def
      required_option_def extractOptionName_verbose get_prop_def eq_null_def call_w_def
      thrown_def)

lemma verbose_w_members:
  "cw_validate (lift_command (new_command VerboseCommand [])) = None"
  "cw_options (lift_command (new_command VerboseCommand [])) = [required_option ''--verbose'']"
  by (simp_all add: lift_command_def new_command_def VerboseCommand_def plain_command_def
      plain_args_def args_def)


lemma build_lookup_mode: "get_prop (Map.empty(''mode'' \<mapsto> v)) ''mode'' = v"
  by (simp add: get_prop_def)


text \<open>The lifted build command with the logger and the timer.\<close>

lemma build_w_members:
  "cw_options (lift_command build_instance) =
     [build_option ''--watch'' ''-w'' (JBool False),
      build_option ''--mode <mode>'' ''-m'' (JStr ''production''),
      build_option ''--output <dir>'' ''-o'' (JStr ''./dist'')]"
  "cw_validate (lift_command build_instance) = Some (\<lambda>current. (build_validate current, current))"
  by (simp_all add: lift_command_def build_instance_def new_command_def BuildCommand_def args_def)

lemma build_w_before_part:
  "before_part (lift_command build_instance) opts arguments now =
     (Inr (), with_options opts [PluginBefore ''logger'', PluginBefore ''timer'', CommandBefore])"
proof -
  have "befores_w (lift_command build_instance) ctx (with_options (ctx_options ctx) []) =
      (Inr (), with_options (ctx_options ctx)
         [PluginBefore ''logger'', PluginBefore ''timer'', CommandBefore])" for ctx
    unfolding befores_w_def getPlugins_w_lift build_plugins
    by (simp add: and_then_w_def call_hook_w_def call_w_def ret_w_def thrown_def lift_plugin_def
        lift_hook_def lift_command_def new_plugin_def LoggerPlugin_def TimerPlugin_def
        build_instance_def new_command_def BuildCommand_def with_options_def)
  from this[of "context_w (lift_command build_instance) opts arguments now"]
  show ?thesis
    by (simp add: before_part_def context_w_def with_options_def)
qed

lemma build_w_validation:
  "validateOptions_w (lift_command build_instance) (with_options opts t) =
     (build_validate opts, with_options opts (t @ [Validate]))"
proof -
  have "\<not> list_ex (lacks_value (inv_options (with_options opts t)))
      (cw_options (lift_command build_instance))"
    by (simp add: build_w_members build_option_def lacks_value_def)
  from validateOptions_w_present[OF this] show ?thesis
    by (simp add: build_w_members with_options_def)
qed

lemma test_w_validation:
  "validateOptions_w (lift_command (new_command TestCommand []))
       \<lparr>inv_trace = [], inv_options = Map.empty(''name'' \<mapsto> JStr n)\<rparr> =
     (test_validate (Map.empty(''name'' \<mapsto> JStr n)),
      \<lparr>inv_trace = [(Validate, Map.empty(''name'' \<mapsto> JStr n))],
       inv_options = Map.empty(''name'' \<mapsto> JStr n)\<rparr>)"
proof -
  have "\<not> list_ex (lacks_value (inv_options \<lparr>inv_trace = [], inv_options = Map.empty(''name'' \<mapsto> JStr n)\<rparr>))
      (cw_options (lift_command (new_command TestCommand [])))"
    by (simp add: test_w_members name_lacks_value optional_lacks_nothing)
  from validateOptions_w_present[OF this] show ?thesis
    by (simp add: test_w_members)
qed


lemma forgetting_runs:
  "setupAction_w ForgettingCommand (Map.empty(''name'' \<mapsto> JStr ''x'')) [] 0 =
     (Inr (), \<lparr>inv_trace = [(Validate, Map.empty(''name'' \<mapsto> JStr ''x'')), (Execute, Map.empty)],
               inv_options = Map.empty\<rparr>)"
proof -
  let ?o = "Map.empty(''name'' \<mapsto> JStr ''x'')"
  have m: "cw_options ForgettingCommand = cw_options (lift_command (new_command TestCommand []))"
    "cw_validate ForgettingCommand = Some (\<lambda>current. (Inr None, current(''name'' := None)))"
    "cw_beforeExecute ForgettingCommand = None" "cw_afterExecute ForgettingCommand = None"
    "cw_execute ForgettingCommand = (\<lambda>current. (None, current))"
    "getPlugins_w ForgettingCommand = []"
    by (simp_all add: ForgettingCommand_def test_w_members getPlugins_w_def)
       (simp_all add: lift_command_def new_command_def TestCommand_def args_def)
  have b: "before_part ForgettingCommand ?o [] 0 = (Inr (), \<lparr>inv_trace = [], inv_options = ?o\<rparr>)"
    by (simp add: before_part_def befores_w_def m and_then_w_def ret_w_def call_hook_w_def)
  have "\<not> list_ex (lacks_value (inv_options \<lparr>inv_trace = [], inv_options = ?o\<rparr>))
      (cw_options ForgettingCommand)"
    by (simp add: m test_w_members name_lacks_value optional_lacks_nothing)
  from validateOptions_w_present[OF this]
  have v: "validateOptions_w ForgettingCommand \<lparr>inv_trace = [], inv_options = ?o\<rparr> =
      (Inr None, \<lparr>inv_trace = [(Validate, ?o)], inv_options = Map.empty\<rparr>)"
    by (simp add: m)
  from setupAction_w_body[OF b v]
  show ?thesis
    by (simp add: try_catch_w_def body_w_def and_then_w_def call_w_def call_hook_w_def ret_w_def
        thrown_def m)
qed

lemma forgetting_lacks:
  "list_ex (lacks_value Map.empty) (cw_options ForgettingCommand)"
  by (simp add: ForgettingCommand_def test_w_members name_lacks_value)

lemma failing_setup_w:
  "setupAction_w (lift_command (new_command FailingSetupCommand [])) opts [] 0 =
     (Inl (Error ''setup failed''),
      \<lparr>inv_trace = [(CommandBefore, opts), (OnError (Error ''setup failed''), opts)],
       inv_options = opts\<rparr>)"
proof -
  let ?cmd = "lift_command (new_command FailingSetupCommand [])"
  have "before_part ?cmd opts [] 0 =
      (Inl (Error ''setup failed''), \<lparr>inv_trace = [(CommandBefore, opts)], inv_options = opts\<rparr>)"
    by (simp add: before_part_def befores_w_def getPlugins_w_def lift_command_def new_command_def
        FailingSetupCommand_def TestCommand_def args_def and_then_w_def ret_w_def call_hook_w_def
        call_w_def thrown_def lift_hook_def context_w_def)
  from setupAction_w_before_throws[OF this] show ?thesis
    by (simp add: catch_block_w_result lift_command_def new_command_def FailingSetupCommand_def
        TestCommand_def onError_def)
qed

lemma extractOptionName_constructor: "extractOptionName ''--constructor <fn>'' = ''constructor''"
  by (simp add: extractOptionName_def strip_dashes_def trim_def space_at_start_def
      space_at_end_def white_space_def suffix_to_prefix)

lemma constructor_w_members:
  "cw_options (lift_command (new_command ConstructorCommand [])) =
     [required_option ''--constructor <fn>'']"
  "cw_validate (lift_command (new_command ConstructorCommand [])) = None"
  by (simp_all add: lift_command_def new_command_def ConstructorCommand_def plain_command_def
      plain_args_def args_def)

lemma constructor_w_validation:
  "validateOptions_w (lift_command (new_command ConstructorCommand []))
       \<lparr>inv_trace = [], inv_options = Map.empty\<rparr> =
     (Inr None, \<lparr>inv_trace = [], inv_options = Map.empty\<rparr>)"
proof -
  have "\<not> list_ex (lacks_value (inv_options \<lparr>inv_trace = [], inv_options = Map.empty\<rparr>))
      (cw_options (lift_command (new_command ConstructorCommand [])))"
    by (simp add: constructor_w_members required_option_def lacks_value_def
        extractOptionName_constructor get_prop_def Object_prototype_def eq_null_def)
  from validateOptions_w_present[OF this] show ?thesis
    by (simp add: constructor_w_members)
qed

lemma constructor_w_runs:
  "setupAction_w (lift_command (new_command ConstructorCommand [])) Map.empty [] 0 =
     (Inr (), \<lparr>inv_trace = [(Execute, Map.empty)], inv_options = Map.empty\<rparr>)"
proof -
  let ?cmd = "lift_command (new_command ConstructorCommand [])"
  have b: "before_part ?cmd Map.empty [] 0 = (Inr (), \<lparr>inv_trace = [], inv_options = Map.empty\<rparr>)"
    by (simp add: before_part_def befores_w_def getPlugins_w_def lift_command_def new_command_def
        ConstructorCommand_def plain_command_def plain_args_def args_def and_then_w_def ret_w_def
        call_hook_w_def)
  from setupAction_w_body[OF b constructor_w_validation] show ?thesis
    by (simp add: try_catch_w_def body_w_def and_then_w_def call_w_def call_hook_w_def ret_w_def
        thrown_def getPlugins_w_def lift_command_def new_command_def ConstructorCommand_def
        plain_command_def plain_args_def args_def)
qed


lemma empty_message_w:
  "validateOptions_w EmptyMessageCommand \<lparr>inv_trace = [], inv_options = Map.empty\<rparr> =
     (Inr (Some []), \<lparr>inv_trace = [(Validate, Map.empty)], inv_options = Map.empty\<rparr>)"
  "setupAction_w EmptyMessageCommand Map.empty [] 0 =
     (Inr (), \<lparr>inv_trace = [(Validate, Map.empty), (Execute, Map.empty)],
               inv_options = Map.empty\<rparr>)"
proof -
  have m: "cw_options EmptyMessageCommand = []"
    "cw_validate EmptyMessageCommand = Some (\<lambda>current. (Inr (Some []), current))"
    "cw_beforeExecute EmptyMessageCommand = None" "cw_afterExecute EmptyMessageCommand = None"
    "cw_execute EmptyMessageCommand = (\<lambda>current. (None, current))"
    "getPlugins_w EmptyMessageCommand = []"
    by (simp_all add: EmptyMessageCommand_def getPlugins_w_def lift_command_def new_command_def
        plain_command_def plain_args_def args_def)
  show v: "validateOptions_w EmptyMessageCommand \<lparr>inv_trace = [], inv_options = Map.empty\<rparr> =
     (Inr (Some []), \<lparr>inv_trace = [(Validate, Map.empty)], inv_options = Map.empty\<rparr>)"
    by (simp add: validateOptions_w_def m call_w_def)
  have b: "before_part EmptyMessageCommand Map.empty [] 0 =
      (Inr (), \<lparr>inv_trace = [], inv_options = Map.empty\<rparr>)"
    by (simp add: before_part_def befores_w_def m and_then_w_def ret_w_def call_hook_w_def)
  from setupAction_w_body[OF b v]
  show "setupAction_w EmptyMessageCommand Map.empty [] 0 =
     (Inr (), \<lparr>inv_trace = [(Validate, Map.empty), (Execute, Map.empty)],
               inv_options = Map.empty\<rparr>)"
    by (simp add: try_catch_w_def body_w_def and_then_w_def call_w_def call_hook_w_def ret_w_def
        thrown_def m)
qed


section \<open>Validation, as the action sees it\<close>

text \<open>
  C6, as amended, for user code that may write the options. \<open>validateOptions\<close> first
  looks for a required option whose lookup key, read from the options object as it is
  then, gives \<open>null\<close> or \<open>undefined\<close>, in the order of the option definitions: when
  there is one, the result is the message that names the flag of the first such option,
  and the invocation is unchanged (the custom validator is not called). Otherwise the
  custom validator is called and its result is the result, exactly; without a custom
  validator the result is \<open>null\<close>. The lookup key of \<open>--k\<close> and of
  \<open>--k placeholder\<close> is \<open>k\<close>, for a name \<open>k\<close> without white space, and so is that of
  \<open>-k\<close> and of \<open>-k placeholder\<close> when \<open>k\<close> does not begin with a dash. When the
  before-hooks return and the result of validation is a non-empty message, the action
  passes \<open>new Error(message)\<close> with that message to the error hook and does not call
  \<open>execute\<close>; when the result is \<open>null\<close> or the empty string, validation has
  succeeded and \<open>execute\<close> is called. In the witness \<open>--name <value>\<close> is required and
  looked up as \<open>name\<close>, and the validator of \<open>build\<close> rejects the mode \<open>staging\<close>.
\<close>

theorem validateOptions_order:
  "(find (lacks_value (inv_options s)) (cw_options this) = Some option \<longrightarrow>
      validateOptions_w this s = (Inr (Some (required_message (opt_flag option))), s)) \<and>
   (\<not> list_ex (lacks_value (inv_options s)) (cw_options this) \<longrightarrow>
      validateOptions_w this s =
        (case cw_validate this of
           None \<Rightarrow> (Inr None, s)
         | Some v \<Rightarrow>
             (fst (v (inv_options s)),
              \<lparr>inv_trace = inv_trace s @ [(Validate, inv_options s)],
               inv_options = snd (v (inv_options s))\<rparr>))) \<and>
   ((\<forall>c\<in>set k. c \<notin> set (concat white_space)) \<longrightarrow>
      extractOptionName (''--'' @ k @ '' '' @ placeholder) = k \<and>
      extractOptionName (''--'' @ k) = k \<and>
      (k = [] \<or> hd k \<noteq> CHR ''-'' \<longrightarrow>
         extractOptionName (''-'' @ k @ '' '' @ placeholder) = k \<and>
         extractOptionName (''-'' @ k) = k)) \<and>
   (fst (before_part this opts arguments now) = Inr () \<and>
    validateOptions_w this (snd (before_part this opts arguments now)) = (Inr (Some message), s') \<and>
    message \<noteq> [] \<longrightarrow>
      inv_trace (snd (setupAction_w this opts arguments now)) =
        inv_trace s' @ [(OnError (Error message), inv_options s')] \<and>
      Execute \<notin> set (calls_of (snd (setupAction_w this opts arguments now)))) \<and>
   (fst (before_part this opts arguments now) = Inr () \<and>
    validateOptions_w this (snd (before_part this opts arguments now)) = (Inr validationError, s') \<and>
    (validationError = None \<or> validationError = Some []) \<longrightarrow>
      (Execute, inv_options s') \<in> set (inv_trace (snd (setupAction_w this opts arguments now))))"
proof (intro conjI impI)
  assume "find (lacks_value (inv_options s)) (cw_options this) = Some option"
  then show "validateOptions_w this s = (Inr (Some (required_message (opt_flag option))), s)"
    by (rule validateOptions_w_missing)
next
  assume "\<not> list_ex (lacks_value (inv_options s)) (cw_options this)"
  then show "validateOptions_w this s =
        (case cw_validate this of
           None \<Rightarrow> (Inr None, s)
         | Some v \<Rightarrow>
             (fst (v (inv_options s)),
              \<lparr>inv_trace = inv_trace s @ [(Validate, inv_options s)],
               inv_options = snd (v (inv_options s))\<rparr>))"
    by (rule validateOptions_w_present)
next
  assume k: "\<forall>c\<in>set k. c \<notin> set (concat white_space)"
  then show "extractOptionName (''--'' @ k @ '' '' @ placeholder) = k"
    by (rule extractOptionName_flag(1))
  from k show "extractOptionName (''--'' @ k) = k"
    by (rule extractOptionName_flag(2))
  assume "k = [] \<or> hd k \<noteq> CHR ''-''"
  with k show "extractOptionName (''-'' @ k @ '' '' @ placeholder) = k"
    "extractOptionName (''-'' @ k) = k"
    by (rule extractOptionName_short)+
next
  assume a: "fst (before_part this opts arguments now) = Inr () \<and>
    validateOptions_w this (snd (before_part this opts arguments now)) = (Inr (Some message), s') \<and>
    message \<noteq> []"
  then obtain s1 where b: "before_part this opts arguments now = (Inr (), s1)"
    by (cases "before_part this opts arguments now") auto
  with a have v: "validateOptions_w this s1 = (Inr (Some message), s')" "message \<noteq> []" by simp_all
  from setupAction_w_message[OF b v]
  show tr: "inv_trace (snd (setupAction_w this opts arguments now)) =
        inv_trace s' @ [(OnError (Error message), inv_options s')]"
    by (simp add: catch_block_w_result)
  from a validated_frame[of this opts arguments now "Inr (Some message)" s']
  show "Execute \<notin> set (calls_of (snd (setupAction_w this opts arguments now)))"
    unfolding calls_of_def tr by simp
next
  assume a: "fst (before_part this opts arguments now) = Inr () \<and>
    validateOptions_w this (snd (before_part this opts arguments now)) = (Inr validationError, s') \<and>
    (validationError = None \<or> validationError = Some [])"
  then obtain s1 where b: "before_part this opts arguments now = (Inr (), s1)"
    by (cases "before_part this opts arguments now") auto
  with a have v: "validateOptions_w this s1 = (Inr validationError, s')"
    "validationError = None \<or> validationError = Some []" by simp_all
  from setupAction_w_body[OF b v]
    body_w_caught_frame[of this "context_w this opts arguments now" s']
  show "(Execute, inv_options s') \<in> set (inv_trace (snd (setupAction_w this opts arguments now)))"
    by auto
qed


theorem validateOptions_order_witness:
  "validateOptions_w (lift_command (new_command TestCommand []))
       \<lparr>inv_trace = [], inv_options = Map.empty\<rparr> =
     (Inr (Some (required_message ''--name <value>'')), \<lparr>inv_trace = [], inv_options = Map.empty\<rparr>) \<and>
   validateOptions_w (lift_command (new_command TestCommand []))
       \<lparr>inv_trace = [], inv_options = Map.empty(''name'' \<mapsto> JStr ''invalid'')\<rparr> =
     (Inr (Some test_name_message),
      \<lparr>inv_trace = [(Validate, Map.empty(''name'' \<mapsto> JStr ''invalid''))],
       inv_options = Map.empty(''name'' \<mapsto> JStr ''invalid'')\<rparr>) \<and>
   validateOptions_w (lift_command (new_command TestCommand []))
       \<lparr>inv_trace = [], inv_options = Map.empty(''name'' \<mapsto> JStr ''valid'')\<rparr> =
     (Inr None,
      \<lparr>inv_trace = [(Validate, Map.empty(''name'' \<mapsto> JStr ''valid''))],
       inv_options = Map.empty(''name'' \<mapsto> JStr ''valid'')\<rparr>) \<and>
   extractOptionName ''--name <value>'' = ''name'' \<and>
   extractOptionName ''-n <value>'' = ''n'' \<and>
   inv_trace (snd (setupAction_w (lift_command build_instance)
       (Map.empty(''mode'' \<mapsto> JStr ''staging'')) [] 0)) =
     [(PluginBefore ''logger'', Map.empty(''mode'' \<mapsto> JStr ''staging'')),
      (PluginBefore ''timer'', Map.empty(''mode'' \<mapsto> JStr ''staging'')),
      (CommandBefore, Map.empty(''mode'' \<mapsto> JStr ''staging'')),
      (Validate, Map.empty(''mode'' \<mapsto> JStr ''staging'')),
      (OnError (Error build_mode_message), Map.empty(''mode'' \<mapsto> JStr ''staging''))] \<and>
   (Execute, Map.empty(''mode'' \<mapsto> JStr ''production'')) \<in>
     set (inv_trace (snd (setupAction_w (lift_command build_instance)
       (Map.empty(''mode'' \<mapsto> JStr ''production'')) [] 0)))"
proof -
  let ?test = "lift_command (new_command TestCommand [])"
  let ?name = "\<lparr>opt_flag = ''--name <value>'', opt_abbreviation = Some ''-n'',
       opt_description = None, opt_defaultValue = Undefined, opt_required = True\<rparr>"
  let ?build = "lift_command build_instance"
  note order = validateOptions_order
  have "find (lacks_value (inv_options \<lparr>inv_trace = [], inv_options = Map.empty\<rparr>)) (cw_options ?test) =
      Some ?name"
    by (simp add: test_w_members name_lacks_value)
  with order[of "\<lparr>inv_trace = [], inv_options = Map.empty\<rparr>" ?test ?name]
  have 1: "validateOptions_w ?test \<lparr>inv_trace = [], inv_options = Map.empty\<rparr> =
     (Inr (Some (required_message ''--name <value>'')), \<lparr>inv_trace = [], inv_options = Map.empty\<rparr>)"
    by simp
  have p: "\<not> list_ex (lacks_value (inv_options \<lparr>inv_trace = [], inv_options = Map.empty(''name'' \<mapsto> JStr n)\<rparr>))
      (cw_options ?test)" for n
    by (simp add: test_w_members name_lacks_value optional_lacks_nothing)
  have 2: "validateOptions_w ?test \<lparr>inv_trace = [], inv_options = Map.empty(''name'' \<mapsto> JStr ''invalid'')\<rparr> =
     (Inr (Some test_name_message),
      \<lparr>inv_trace = [(Validate, Map.empty(''name'' \<mapsto> JStr ''invalid''))],
       inv_options = Map.empty(''name'' \<mapsto> JStr ''invalid'')\<rparr>)"
    using order[of "\<lparr>inv_trace = [], inv_options = Map.empty(''name'' \<mapsto> JStr ''invalid'')\<rparr>" ?test]
      p[of "''invalid''"]
    by (simp add: test_w_members test_validate_def get_prop_def)
  have 3: "validateOptions_w ?test \<lparr>inv_trace = [], inv_options = Map.empty(''name'' \<mapsto> JStr ''valid'')\<rparr> =
     (Inr None,
      \<lparr>inv_trace = [(Validate, Map.empty(''name'' \<mapsto> JStr ''valid''))],
       inv_options = Map.empty(''name'' \<mapsto> JStr ''valid'')\<rparr>)"
    using order[of "\<lparr>inv_trace = [], inv_options = Map.empty(''name'' \<mapsto> JStr ''valid'')\<rparr>" ?test]
      p[of "''valid''"]
    by (simp add: test_w_members test_validate_def get_prop_def)
  have "\<forall>c\<in>set ''name''. c \<notin> set (concat white_space)"
    by (simp add: white_space_def)
  with order[where k = "''name''" and placeholder = "''<value>''"]
  have 4: "extractOptionName ''--name <value>'' = ''name''"
    by simp
  have "\<forall>c\<in>set ''n''. c \<notin> set (concat white_space)"
    by (simp add: white_space_def)
  with order[where k = "''n''" and placeholder = "''<value>''"]
  have dash: "extractOptionName ''-n <value>'' = ''n''"
    by simp
  let ?staging = "Map.empty(''mode'' \<mapsto> JStr ''staging'')"
  have v: "validateOptions_w ?build (snd (before_part ?build ?staging [] 0)) =
      (Inr (Some build_mode_message),
       with_options ?staging [PluginBefore ''logger'', PluginBefore ''timer'', CommandBefore, Validate])"
    by (simp add: build_w_before_part build_w_validation build_validate_def build_lookup_mode
        truthy_def)
  have m: "build_mode_message \<noteq> []"
    by (simp add: build_mode_message_def)
  from order[where this = ?build and opts = ?staging and arguments = "[]" and now = 0
      and message = build_mode_message
      and s' = "with_options ?staging [PluginBefore ''logger'', PluginBefore ''timer'', CommandBefore, Validate]"]
    v m
  have 5: "inv_trace (snd (setupAction_w ?build ?staging [] 0)) =
     [(PluginBefore ''logger'', ?staging), (PluginBefore ''timer'', ?staging),
      (CommandBefore, ?staging), (Validate, ?staging),
      (OnError (Error build_mode_message), ?staging)]"
    by (simp add: build_w_before_part with_options_def)
  let ?production = "Map.empty(''mode'' \<mapsto> JStr ''production'')"
  have v': "validateOptions_w ?build (snd (before_part ?build ?production [] 0)) =
      (Inr None,
       with_options ?production [PluginBefore ''logger'', PluginBefore ''timer'', CommandBefore, Validate])"
    by (simp add: build_w_before_part build_w_validation build_valid_production)
  from order[where this = ?build and opts = ?production and arguments = "[]" and now = 0
      and validationError = None
      and s' = "with_options ?production [PluginBefore ''logger'', PluginBefore ''timer'', CommandBefore, Validate]"]
    v'
  have 6: "(Execute, ?production) \<in> set (inv_trace (snd (setupAction_w ?build ?production [] 0)))"
    by (simp add: build_w_before_part with_options_def)
  from 1 2 3 4 dash 5 6 show ?thesis by simp
qed

text \<open>
  C6 as stated fails. A validator that returns the empty string returns a string that
  is not \<open>null\<close>, but \<open>if (validationError)\<close> is a truthiness test: nothing is
  raised and \<open>execute\<close> is called. And for the required option \<open>--constructor <fn>\<close>
  the parsed options \<open>{}\<close> hold no value, but the lookup finds the member that the
  object inherits, and \<open>validateOptions\<close> returns \<open>null\<close>.
\<close>

theorem empty_message_is_not_reported:
  "validateOptions_w EmptyMessageCommand \<lparr>inv_trace = [], inv_options = Map.empty\<rparr> =
     (Inr (Some []), \<lparr>inv_trace = [(Validate, Map.empty)], inv_options = Map.empty\<rparr>) \<and>
   setupAction_w EmptyMessageCommand Map.empty [] 0 =
     (Inr (), \<lparr>inv_trace = [(Validate, Map.empty), (Execute, Map.empty)],
               inv_options = Map.empty\<rparr>) \<and>
   cw_options (lift_command (new_command ConstructorCommand [])) =
     [required_option ''--constructor <fn>''] \<and>
   validateOptions_w (lift_command (new_command ConstructorCommand []))
       \<lparr>inv_trace = [], inv_options = Map.empty\<rparr> =
     (Inr None, \<lparr>inv_trace = [], inv_options = Map.empty\<rparr>)"
  by (simp only: empty_message_w constructor_w_validation constructor_w_members)

section \<open>The order of the hooks\<close>




section \<open>The build scenario\<close>

text \<open>
  C1, as amended. With the logger (priority 50) and the timer (priority 100) installed
  in either order, invoking \<open>build\<close> with options that its validator accepts returns
  normally after exactly these calls: \<open>logger.beforeExecute\<close>, \<open>timer.beforeExecute\<close>,
  the command's \<open>beforeExecute\<close>, \<open>execute\<close>, the command's \<open>afterExecute\<close>,
  \<open>logger.afterExecute\<close>, \<open>timer.afterExecute\<close>. The after-hooks of the plugins run in
  the order of the before-hooks, not in the reverse order.
\<close>

theorem build_hook_sequence:
  assumes "build_validate opts = Inr None"
  shows
    "map_option (\<lambda>r. (fst r, hook_calls (snd r)))
       (dispatch (build_program [(LoggerPlugin, False), (TimerPlugin, False)]) ''build''
          opts arguments now) =
     Some (Inr (), [PluginBefore ''logger'', PluginBefore ''timer'', CommandBefore, Execute,
                    CommandAfter, PluginAfter ''logger'', PluginAfter ''timer'']) \<and>
     map_option (\<lambda>r. (fst r, hook_calls (snd r)))
       (dispatch (build_program [(TimerPlugin, False), (LoggerPlugin, False)]) ''build''
          opts arguments now) =
     Some (Inr (), [PluginBefore ''logger'', PluginBefore ''timer'', CommandBefore, Execute,
                    CommandAfter, PluginAfter ''logger'', PluginAfter ''timer''])"
  using build_returns[OF assms]
  by (simp add: build_program_dispatch hook_calls_Cons)


theorem build_hook_sequence_witness:
  "build_validate (Map.empty(''mode'' \<mapsto> JStr ''production'')) = Inr None \<and>
   map_option (\<lambda>r. hook_calls (snd r))
       (dispatch (build_program [(TimerPlugin, False), (LoggerPlugin, False)]) ''build''
          (Map.empty(''mode'' \<mapsto> JStr ''production'')) [] 0) =
     Some [PluginBefore ''logger'', PluginBefore ''timer'', CommandBefore, Execute,
           CommandAfter, PluginAfter ''logger'', PluginAfter ''timer'']"
proof -
  have v: "build_validate (Map.empty(''mode'' \<mapsto> JStr ''production'')) = Inr None"
    by (rule build_valid_production)
  from build_hook_sequence[OF v, of "[]" 0] have
    "map_option (\<lambda>r. (fst r, hook_calls (snd r)))
       (dispatch (build_program [(TimerPlugin, False), (LoggerPlugin, False)]) ''build''
          (Map.empty(''mode'' \<mapsto> JStr ''production'')) [] 0) =
     Some (Inr (), [PluginBefore ''logger'', PluginBefore ''timer'', CommandBefore, Execute,
                    CommandAfter, PluginAfter ''logger'', PluginAfter ''timer''])"
    by simp
  then have "map_option (\<lambda>r. hook_calls (snd r))
       (dispatch (build_program [(TimerPlugin, False), (LoggerPlugin, False)]) ''build''
          (Map.empty(''mode'' \<mapsto> JStr ''production'')) [] 0) =
     Some [PluginBefore ''logger'', PluginBefore ''timer'', CommandBefore, Execute,
           CommandAfter, PluginAfter ''logger'', PluginAfter ''timer'']"
    by (cases "dispatch (build_program [(TimerPlugin, False), (LoggerPlugin, False)]) ''build''
          (Map.empty(''mode'' \<mapsto> JStr ''production'')) [] 0") auto
  with v show ?thesis by simp
qed


text \<open>
  C1 as stated fails: with the options \<open>{}\<close>, which the validator accepts, the calls
  are not the sequence that ends with \<open>timer.afterExecute\<close>, \<open>logger.afterExecute\<close>.
\<close>

theorem build_claimed_sequence_fails:
  "build_validate Map.empty = Inr None \<and>
   map_option (\<lambda>r. hook_calls (snd r))
       (dispatch (build_program [(LoggerPlugin, False), (TimerPlugin, False)]) ''build''
          Map.empty [] 0) \<noteq>
     Some [PluginBefore ''logger'', PluginBefore ''timer'', CommandBefore, Execute,
           CommandAfter, PluginAfter ''timer'', PluginAfter ''logger'']"
  using build_returns[OF build_valid_production(2), of "[]" 0]
  by (simp add: build_program_dispatch hook_calls_Cons build_valid_production)


section \<open>A missing required option\<close>

text \<open>
  C5, as amended, for user code that may write the options. When the before-hooks of
  the resolved plugins and of the command return and, in the options as they leave
  them, the check finds a required option without a value, the validation failure that
  names the first such option is raised (it is what the error hook receives, right
  after the before-hooks) and \<open>execute\<close> is not called. In every invocation, \<open>execute\<close> is called only when the before-hooks have
  returned and the check has found no required option without a value in the options as
  they left them, and what \<open>execute\<close> observes are those options as the custom
  validator left them: without a custom validator, \<open>execute\<close> never observes options
  in which the check finds a required option without a value.
\<close>

theorem missing_required_blocks_execute:
  "(fst (before_part this opts arguments now) = Inr () \<and>
    find (lacks_value (inv_options (snd (before_part this opts arguments now))))
      (cw_options this) = Some option \<longrightarrow>
      inv_trace (snd (setupAction_w this opts arguments now)) =
        inv_trace (snd (before_part this opts arguments now)) @
        [(OnError (Error (required_message (opt_flag option))),
          inv_options (snd (before_part this opts arguments now)))] \<and>
      Execute \<notin> set (calls_of (snd (setupAction_w this opts arguments now)))) \<and>
   (\<forall>observed. (Execute, observed) \<in> set (inv_trace (snd (setupAction_w this opts arguments now))) \<longrightarrow>
      fst (before_part this opts arguments now) = Inr () \<and>
      \<not> list_ex (lacks_value (inv_options (snd (before_part this opts arguments now))))
          (cw_options this) \<and>
      observed = left_by_validator this (inv_options (snd (before_part this opts arguments now)))) \<and>
   (cw_validate this = None \<longrightarrow>
      (\<forall>observed. (Execute, observed) \<in> set (inv_trace (snd (setupAction_w this opts arguments now))) \<longrightarrow>
         \<not> list_ex (lacks_value observed) (cw_options this)))"
proof (intro conjI impI allI)
  assume a: "fst (before_part this opts arguments now) = Inr () \<and>
    find (lacks_value (inv_options (snd (before_part this opts arguments now))))
      (cw_options this) = Some option"
  then show tr: "inv_trace (snd (setupAction_w this opts arguments now)) =
        inv_trace (snd (before_part this opts arguments now)) @
        [(OnError (Error (required_message (opt_flag option))),
          inv_options (snd (before_part this opts arguments now)))]"
    by (intro missing_is_raised) simp_all
  show "Execute \<notin> set (calls_of (snd (setupAction_w this opts arguments now)))"
    unfolding calls_of_def tr using before_part_frame[of this opts arguments now] by simp
next
  fix observed
  assume "(Execute, observed) \<in> set (inv_trace (snd (setupAction_w this opts arguments now)))"
  from execute_observed[OF this]
  show "fst (before_part this opts arguments now) = Inr ()"
    "\<not> list_ex (lacks_value (inv_options (snd (before_part this opts arguments now))))
          (cw_options this)"
    "observed = left_by_validator this (inv_options (snd (before_part this opts arguments now)))"
    by simp_all
next
  fix observed
  assume "cw_validate this = None"
    "(Execute, observed) \<in> set (inv_trace (snd (setupAction_w this opts arguments now)))"
  with execute_observed[of observed this opts arguments now]
  show "\<not> list_ex (lacks_value observed) (cw_options this)"
    by (simp add: left_by_validator_def)
qed

theorem missing_required_blocks_execute_witness:
  "inv_trace (snd (setupAction_w (lift_command (new_command TestCommand []))
       (Map.empty(''name'' \<mapsto> Null)) [] 0)) =
     [(OnError (Error (required_message ''--name <value>'')), Map.empty(''name'' \<mapsto> Null))] \<and>
   inv_trace (snd (setupAction_w (lift_command (new_command TestCommand [])) Map.empty [] 0)) =
     [(OnError (Error (required_message ''--name <value>'')), Map.empty)] \<and>
   (Execute, Map.empty(''name'' \<mapsto> JStr ''fallback'')) \<in>
     set (inv_trace (snd (setupAction_w SupplyingCommand Map.empty [] 0))) \<and>
   \<not> list_ex (lacks_value (Map.empty(''name'' \<mapsto> JStr ''fallback''))) (cw_options SupplyingCommand) \<and>
   (Execute, Map.empty(''verbose'' \<mapsto> JBool False)) \<in>
     set (inv_trace (snd (setupAction_w (lift_command (new_command VerboseCommand []))
       (Map.empty(''verbose'' \<mapsto> JBool False)) [] 0))) \<and>
   \<not> list_ex (lacks_value (Map.empty(''verbose'' \<mapsto> JBool False)))
       (cw_options (lift_command (new_command VerboseCommand [])))"
proof -
  let ?test = "lift_command (new_command TestCommand [])"
  let ?name = "\<lparr>opt_flag = ''--name <value>'', opt_abbreviation = Some ''-n'',
       opt_description = None, opt_defaultValue = Undefined, opt_required = True\<rparr>"
  have f: "find (lacks_value (inv_options (snd (before_part ?test opts [] 0)))) (cw_options ?test) =
      Some ?name" if "opts ''name'' = None \<or> opts ''name'' = Some Null" for opts
    using that by (auto simp: test_w_before_part test_w_members name_lacks_value)
  have 1: "inv_trace (snd (setupAction_w ?test (Map.empty(''name'' \<mapsto> Null)) [] 0)) =
     [(OnError (Error (required_message ''--name <value>'')), Map.empty(''name'' \<mapsto> Null))]"
    using missing_required_blocks_execute[of ?test "Map.empty(''name'' \<mapsto> Null)" "[]" 0 ?name]
      f[of "Map.empty(''name'' \<mapsto> Null)"]
    by (simp add: test_w_before_part)
  have 2: "inv_trace (snd (setupAction_w ?test Map.empty [] 0)) =
     [(OnError (Error (required_message ''--name <value>'')), Map.empty)]"
    using missing_required_blocks_execute[of ?test Map.empty "[]" 0 ?name] f[of Map.empty]
    by (simp add: test_w_before_part)
  let ?o = "Map.empty(''name'' \<mapsto> JStr ''fallback'')"
  have 3: "(Execute, ?o) \<in> set (inv_trace (snd (setupAction_w SupplyingCommand Map.empty [] 0)))"
    by (simp add: supplying_runs_any)
  with missing_required_blocks_execute[of SupplyingCommand Map.empty "[]" 0]
  have 4: "\<not> list_ex (lacks_value ?o) (cw_options SupplyingCommand)"
    by (simp add: supplying_before_part)
  let ?v = "Map.empty(''verbose'' \<mapsto> JBool False)"
  let ?verbose = "lift_command (new_command VerboseCommand [])"
  have 5: "(Execute, ?v) \<in> set (inv_trace (snd (setupAction_w ?verbose ?v [] 0)))"
    by (simp add: verbose_w_runs)
  with missing_required_blocks_execute[of ?verbose ?v "[]" 0] verbose_w_members(1)
  have 6: "\<not> list_ex (lacks_value ?v) (cw_options ?verbose)"
    by blast
  from 1 2 3 4 5 6 show ?thesis by simp
qed

text \<open>
  C5 as stated fails. The first three commands below have a required option, and the
  parsed options are \<open>{}\<close>. A \<open>beforeExecute\<close> that throws comes before validation:
  the error raised is that of the hook, and no validation failure is raised (nor is one
  when the parsed options hold \<open>null\<close> for the option). A
  \<open>beforeExecute\<close> that sets the option makes validation pass, and \<open>execute\<close> is
  called. For the required option \<open>--constructor <fn>\<close> the lookup finds the member
  that the options object inherits: validation passes and \<open>execute\<close> is called. And
  when the parsed options hold the required \<open>name\<close> and the validator deletes it,
  \<open>execute\<close> observes options without it.
\<close>

theorem required_option_claim_fails:
  "list_ex opt_required (cw_options (lift_command (new_command FailingSetupCommand []))) \<and>
   setupAction_w (lift_command (new_command FailingSetupCommand [])) Map.empty [] 0 =
     (Inl (Error ''setup failed''),
      \<lparr>inv_trace = [(CommandBefore, Map.empty), (OnError (Error ''setup failed''), Map.empty)],
       inv_options = Map.empty\<rparr>) \<and>
   setupAction_w (lift_command (new_command FailingSetupCommand [])) (Map.empty(''name'' \<mapsto> Null)) [] 0 =
     (Inl (Error ''setup failed''),
      \<lparr>inv_trace = [(CommandBefore, Map.empty(''name'' \<mapsto> Null)),
                    (OnError (Error ''setup failed''), Map.empty(''name'' \<mapsto> Null))],
       inv_options = Map.empty(''name'' \<mapsto> Null)\<rparr>) \<and>
   Error ''setup failed'' \<noteq> Error (required_message ''--name <value>'') \<and>
   list_ex opt_required (cw_options SupplyingCommand) \<and>
   setupAction_w SupplyingCommand Map.empty [] 0 =
     (Inr (), \<lparr>inv_trace = [(CommandBefore, Map.empty),
                             (Validate, Map.empty(''name'' \<mapsto> JStr ''fallback'')),
                             (Execute, Map.empty(''name'' \<mapsto> JStr ''fallback''))],
               inv_options = Map.empty(''name'' \<mapsto> JStr ''fallback'')\<rparr>) \<and>
   list_ex opt_required (cw_options (lift_command (new_command ConstructorCommand []))) \<and>
   setupAction_w (lift_command (new_command ConstructorCommand [])) Map.empty [] 0 =
     (Inr (), \<lparr>inv_trace = [(Execute, Map.empty)], inv_options = Map.empty\<rparr>) \<and>
   setupAction_w ForgettingCommand (Map.empty(''name'' \<mapsto> JStr ''x'')) [] 0 =
     (Inr (), \<lparr>inv_trace = [(Validate, Map.empty(''name'' \<mapsto> JStr ''x'')), (Execute, Map.empty)],
               inv_options = Map.empty\<rparr>) \<and>
   list_ex (lacks_value Map.empty) (cw_options ForgettingCommand)"
proof -
  have "list_ex opt_required (cw_options (lift_command (new_command FailingSetupCommand [])))"
    by (simp add: lift_command_def new_command_def FailingSetupCommand_def TestCommand_def args_def)
  moreover have "Error ''setup failed'' \<noteq> Error (required_message ''--name <value>'')"
    by (simp add: required_message_def)
  moreover have "list_ex opt_required (cw_options SupplyingCommand)"
    by (simp add: supplying_members test_w_members)
  moreover have "list_ex opt_required (cw_options (lift_command (new_command ConstructorCommand [])))"
    by (simp add: constructor_w_members required_option_def)
  ultimately show ?thesis
    by (simp only: failing_setup_w supplying_runs_any constructor_w_runs forgetting_runs
        forgetting_lacks) simp
qed


section \<open>The error hook\<close>

text \<open>
  C7. For every error \<open>e\<close> raised during validation or during the command body, the
  last call of the action is \<open>onError(e, context)\<close>; when the hook returns true the
  action returns normally, and when it returns false the action throws \<open>e\<close> itself.
\<close>

theorem onError_decides_propagation:
  assumes "raised_in_validation_or_body this opts (make_context this opts arguments now) e"
  shows "(\<exists>t. snd (setupAction this opts arguments now []) = t @ [OnError e]) \<and>
     (cc_onError (bc_class this) e (make_context this opts arguments now) = Inr True \<longrightarrow>
        fst (setupAction this opts arguments now []) = Inr ()) \<and>
     (cc_onError (bc_class this) e (make_context this opts arguments now) = Inr False \<longrightarrow>
        fst (setupAction this opts arguments now []) = Inl e)"
  using setupAction_raised[OF assms] by simp


theorem onError_decides_propagation_witness:
  "fst (setupAction build_instance (Map.empty(''mode'' \<mapsto> JStr ''staging'')) [] 0 []) = Inr () \<and>
   last (snd (setupAction build_instance (Map.empty(''mode'' \<mapsto> JStr ''staging'')) [] 0 [])) =
     OnError (Error build_mode_message) \<and>
   fst (setupAction (new_command TestCommand []) Map.empty [] 0 []) =
     Inl (Error (required_message ''--name <value>''))"
proof -
  let ?staging = "Map.empty(''mode'' \<mapsto> JStr ''staging'')"
  have "validation_error build_instance ?staging = Some (Error build_mode_message)"
    by (simp add: validation_error_def build_validation build_validate_def get_prop_def
        truthy_def build_mode_message_def)
  moreover have "befores_return build_instance (make_context build_instance ?staging [] 0)"
    unfolding befores_return_def build_plugins
    by (simp add: hook_returns_def new_plugin_def LoggerPlugin_def TimerPlugin_def
        build_instance_def new_command_def BuildCommand_def)
  ultimately have "raised_in_validation_or_body build_instance ?staging
      (make_context build_instance ?staging [] 0) (Error build_mode_message)"
    by (simp add: raised_in_validation_or_body_def)
  from onError_decides_propagation[OF this] have 1:
    "fst (setupAction build_instance ?staging [] 0 []) = Inr () \<and>
     last (snd (setupAction build_instance ?staging [] 0 [])) = OnError (Error build_mode_message)"
    by (auto simp: build_instance_def new_command_def BuildCommand_def)
  let ?test = "new_command TestCommand []"
  have "befores_return ?test (make_context ?test Map.empty [] 0)"
    by (simp add: befores_return_def getPlugins_def new_command_def args_def TestCommand_def
        hook_returns_def)
  then have "raised_in_validation_or_body ?test Map.empty (make_context ?test Map.empty [] 0)
      (Error (required_message ''--name <value>''))"
    by (simp add: raised_in_validation_or_body_def test_validation_error)
  from onError_decides_propagation[OF this] have 2:
    "fst (setupAction ?test Map.empty [] 0 []) = Inl (Error (required_message ''--name <value>''))"
    by (simp add: new_command_def TestCommand_def onError_def)
  from 1 2 show ?thesis by simp
qed

section \<open>Import failures during discovery\<close>

lemma loadPlugin_import_fails:
  "imp fn = Inl e \<Longrightarrow>
     loadPlugin imp stem fn w =
       (Inr (), w\<lparr>console := console w @ [ConsoleWarn (plugin_load_message fn) e]\<rparr>)"
  by (simp add: loadPlugin_def loadPlugin_try_def)

lemma loadCommand_import_fails:
  "imp fn = Inl e \<Longrightarrow>
     loadCommand imp stem fn w =
       (Inl e, w\<lparr>console := console w @ [ConsoleError (command_load_message fn) e]\<rparr>)"
  by (simp add: loadCommand_def loadCommand_try_def)

lemma loadPlugin_resolves: "fst (loadPlugin imp stem fn w) = Inr ()"
  by (simp add: loadPlugin_def split: sum.splits)

lemma runjShow_Cons:
  "runjShow imp stem (fn # fns) w =
     (case load_file imp stem fn w of
        (Inl e, w') \<Rightarrow> Inl e
      | (Inr u, w') \<Rightarrow> runjShow imp stem fns w')"
  by (auto simp: runjShow_def split: prod.splits sum.splits option.splits)


text \<open>
  C9. When the import of a file fails with an error \<open>e\<close>: \<open>loadPlugin\<close> writes a
  warning with \<open>e\<close> to the console, leaves the registry as it was and resolves, and
  discovery goes on with the other files as if the plugin file were not there;
  \<open>loadCommand\<close> writes \<open>e\<close> to the console as an error and rejects with \<open>e\<close>, and
  \<open>runjShow\<close> rejects with it (for the first loader that rejects) instead of running the
  program.
\<close>

theorem import_failure_asymmetry:
  assumes "imp fn = Inl e"
  shows
    "loadPlugin imp stem fn w =
       (Inr (), w\<lparr>console := console w @ [ConsoleWarn (plugin_load_message fn) e]\<rparr>) \<and>
     loadCommand imp stem fn w =
       (Inl e, w\<lparr>console := console w @ [ConsoleError (command_load_message fn) e]\<rparr>) \<and>
     (suffix ''.plugin.ts'' fn \<or> suffix ''.plugin.js'' fn \<longrightarrow>
        runjShow imp stem (fn # fns) w =
          runjShow imp stem fns
            (w\<lparr>console := console w @ [ConsoleWarn (plugin_load_message fn) e]\<rparr>)) \<and>
     (\<not> (suffix ''.plugin.ts'' fn \<or> suffix ''.plugin.js'' fn) \<and>
      (suffix ''.cmd.ts'' fn \<or> suffix ''.cmd.js'' fn) \<longrightarrow>
        runjShow imp stem (fn # fns) w = Inl e)"
  using assms loadPlugin_import_fails[of imp fn e stem w] loadCommand_import_fails[of imp fn e stem w]
  by (simp add: runjShow_Cons load_file_def)

theorem import_failure_asymmetry_witness:
  "runjShow example_importer (\<lambda>fn. fn) [''bad.plugin.ts'', ''good.plugin.ts''] fresh_process =
     Inr \<lparr>registry = \<lparr>reg_plugins = [plugin_entry TestPlugin], reg_commands = Map.empty\<rparr>,
          console = [ConsoleWarn (plugin_load_message ''bad.plugin.ts'') (Error ''Cannot find module'')]\<rparr> \<and>
   runjShow example_importer (\<lambda>fn. fn) [''bad.cmd.ts'', ''good.plugin.ts''] fresh_process =
     Inl (Error ''Cannot find module'')"
proof -
  let ?e = "Error ''Cannot find module''"
  have bad: "example_importer ''bad.plugin.ts'' = Inl ?e" "example_importer ''bad.cmd.ts'' = Inl ?e"
    by (simp_all add: example_importer_def)
  have 1: "runjShow example_importer (\<lambda>fn. fn) [''bad.plugin.ts'', ''good.plugin.ts''] fresh_process =
      runjShow example_importer (\<lambda>fn. fn) [''good.plugin.ts'']
        (fresh_process\<lparr>console := console fresh_process @
           [ConsoleWarn (plugin_load_message ''bad.plugin.ts'') ?e]\<rparr>)"
    using bad(1) import_failure_asymmetry[where imp = example_importer and fn = "''bad.plugin.ts''"
        and e = ?e and stem = "\<lambda>fn. fn" and w = fresh_process and fns = "[''good.plugin.ts'']"]
    by (simp add: suffix_to_prefix)
  have 2: "runjShow example_importer (\<lambda>fn. fn) [''bad.cmd.ts'', ''good.plugin.ts''] fresh_process = Inl ?e"
    using bad(2) import_failure_asymmetry[where imp = example_importer and fn = "''bad.cmd.ts''"
        and e = ?e and stem = "\<lambda>fn. fn" and w = fresh_process and fns = "[''good.plugin.ts'']"]
    by (simp add: suffix_to_prefix)
  have 3: "runjShow example_importer (\<lambda>fn. fn) [''good.plugin.ts'']
        (fresh_process\<lparr>console := console fresh_process @
           [ConsoleWarn (plugin_load_message ''bad.plugin.ts'') ?e]\<rparr>) =
     Inr \<lparr>registry = \<lparr>reg_plugins = [plugin_entry TestPlugin], reg_commands = Map.empty\<rparr>,
          console = [ConsoleWarn (plugin_load_message ''bad.plugin.ts'') ?e]\<rparr>"
    by (simp add: runjShow_def load_file_def suffix_to_prefix loadPlugin_def loadPlugin_try_def
        example_importer_def isPlugin_def TestPlugin_def plain_plugin_def install_def reset_def
        fresh_process_def plugin_entry_def new_plugin_def Let_def)
  from 1 2 3 show ?thesis by simp
qed

end
